theory Spec2Isabelle
  imports Main "HOL-Library.Word"
begin

unbundle bit_operations_syntax

section \<open>The random octet generator of terrapane/random\<close>

text \<open>
  A shallow embedding of \<^verbatim>\<open>random_generator.cpp\<close> and \<^verbatim>\<open>random_generator.h\<close>.
  The generator object is a record, every member function is a HOL function that takes
  the object and the state of the outside world and returns both updated. Two
  collaborators are not part of the repository and are taken as they are:
  \<^item> the C++ standard library (\<^verbatim>\<open>std::mt19937\<close>, \<^verbatim>\<open>std::uniform_int_distribution\<close>,
    \<^verbatim>\<open>std::vector\<close> and its allocator): a parameter \<open>L\<close> of every function that draws,
    seeds or allocates;
  \<^item> the operating system (\<^verbatim>\<open>open\<close>, \<^verbatim>\<open>read\<close>, \<^verbatim>\<open>close\<close>, \<^verbatim>\<open>BCryptGenRandom\<close>,
    \<^verbatim>\<open>std::random_device\<close>, the system clock): a record \<open>world\<close> that scripts the
    answer of every future call and logs the device calls that were made.
\<close>

subsection \<open>Octets\<close>

type_synonym octet = "8 word"
type_synonym seed_value = "32 word"

subsection \<open>The C++ library as a parameter\<close>

text \<open>
  \<open>engine_init s\<close> is the engine state built by \<^verbatim>\<open>std::mt19937{s}\<close>, \<open>engine_seed s e\<close>
  the state after \<^verbatim>\<open>e.seed(s)\<close>, and \<open>dist_draw (a, b) e\<close> the value and the engine
  state that \<^verbatim>\<open>std::uniform_int_distribution(a, b)\<close> gives when applied to the engine
  \<open>e\<close>. The value has the engine's \<^verbatim>\<open>result_type\<close>, an unsigned integer of 32 bits or
  more, read here as a natural number. \<open>vector_max_size\<close> is
  \<^verbatim>\<open>std::vector<std::uint8_t>::max_size()\<close>, and \<open>allocate n\<close> tells whether the allocator
  supplies storage for \<open>n\<close> octets.
\<close>

record 'e cxx_random =
  engine_init :: "seed_value \<Rightarrow> 'e"
  engine_seed :: "seed_value \<Rightarrow> 'e \<Rightarrow> 'e"
  dist_draw :: "nat \<times> nat \<Rightarrow> 'e \<Rightarrow> nat \<times> 'e"
  vector_max_size :: nat
  allocate :: "nat \<Rightarrow> bool"

text \<open>
  \<^verbatim>\<open>std::vector<std::uint8_t> octets(count)\<close>: the constructor throws
  \<^verbatim>\<open>std::length_error\<close> when \<open>count\<close> is more than \<^verbatim>\<open>max_size()\<close>; otherwise it allocates,
  unless \<open>count\<close> is 0, and throws \<^verbatim>\<open>std::bad_alloc\<close> when the allocator fails; otherwise
  the vector holds \<open>count\<close> octets, all 0.
\<close>

datatype cxx_exception = Length_error | Bad_alloc

definition vector_new :: "'e cxx_random \<Rightarrow> nat \<Rightarrow> cxx_exception + octet list" where
  "vector_new L count =
     (if vector_max_size L < count then Inl Length_error
      else if count = 0 then Inr []
      else if allocate L count then Inr (replicate count 0)
      else Inl Bad_alloc)"

subsection \<open>The operating system\<close>

datatype syscall =
    Sys_open string
  | Sys_read int nat nat
  | Sys_close int
  | Sys_BCryptGenRandom nat

text \<open>
  \<open>Sys_read fd off n\<close> logs \<^verbatim>\<open>read(fd, buffer.data() + off, n)\<close>, and
  \<open>Sys_BCryptGenRandom n\<close> logs a call of \<^verbatim>\<open>BCryptGenRandom\<close> that asks for \<open>n\<close> octets (its
  parameter \<^verbatim>\<open>cbBuffer\<close>). Every script holds the
  answers of the calls still to come, the next one first:
  \<^item> \<open>clock_ticks\<close>: the values of \<^verbatim>\<open>system_clock::now().time_since_epoch().count()\<close>;
  \<^item> \<open>random_device_replies\<close>: \<open>Some v\<close> when \<^verbatim>\<open>std::random_device()()\<close> returns \<open>v\<close>,
    \<open>None\<close> when it throws;
  \<^item> \<open>open_replies\<close>: the results of \<^verbatim>\<open>open\<close>, a descriptor or \<open>-1\<close>;
  \<^item> \<open>read_replies\<close>: \<open>None\<close> when \<^verbatim>\<open>read\<close> fails (result \<open>-1\<close>), \<open>Some bs\<close> when the
    device has the octets \<open>bs\<close> ready;
  \<^item> \<open>bcrypt_replies\<close>: \<open>None\<close> when \<^verbatim>\<open>BCryptGenRandom\<close> fails, \<open>Some bs\<close> when the
    service has the octets \<open>bs\<close> ready.
  A call that finds its script empty fails (the clock reads 0).
\<close>

record world =
  clock_ticks :: "int list"
  random_device_replies :: "seed_value option list"
  open_replies :: "int list"
  read_replies :: "octet list option list"
  bcrypt_replies :: "octet list option list"
  trace :: "syscall list"

definition clock_now :: "world \<Rightarrow> int \<times> world" where
  "clock_now w =
     (case clock_ticks w of
        [] \<Rightarrow> (0, w)
      | t # ts \<Rightarrow> (t, w\<lparr>clock_ticks := ts\<rparr>))"

definition random_device :: "world \<Rightarrow> seed_value option \<times> world" where
  "random_device w =
     (case random_device_replies w of
        [] \<Rightarrow> (None, w)
      | r # rs \<Rightarrow> (r, w\<lparr>random_device_replies := rs\<rparr>))"

text \<open>
  \<^verbatim>\<open>open(path, O_NONBLOCK | O_RDONLY | O_CLOEXEC)\<close>; the flags are the same at both
  call sites and are left out of the log.
\<close>

definition sys_open :: "string \<Rightarrow> world \<Rightarrow> int \<times> world" where
  "sys_open path w =
     (let w' = w\<lparr>trace := trace w @ [Sys_open path]\<rparr>
      in case open_replies w of
           [] \<Rightarrow> (- 1, w')
         | fd # fds \<Rightarrow> (fd, w'\<lparr>open_replies := fds\<rparr>))"

definition sys_close :: "int \<Rightarrow> world \<Rightarrow> world" where
  "sys_close fd w = w\<lparr>trace := trace w @ [Sys_close fd]\<rparr>"

text \<open>
  \<open>store buffer off bs\<close> writes the octets \<open>bs\<close> into the buffer from position \<open>off\<close>
  on and leaves every other position as it was.
\<close>

definition store :: "octet list \<Rightarrow> nat \<Rightarrow> octet list \<Rightarrow> octet list" where
  "store buffer off bs = take off buffer @ bs @ drop (off + length bs) buffer"

text \<open>
  \<^verbatim>\<open>read(fd, buffer.data() + off, n)\<close> on a non-blocking descriptor: it returns \<open>-1\<close> and
  writes nothing when it fails, and otherwise writes the octets it has, at most \<open>n\<close> of
  them, and returns how many it wrote.
\<close>

definition sys_read :: "int \<Rightarrow> octet list \<Rightarrow> nat \<Rightarrow> nat \<Rightarrow> world \<Rightarrow> int \<times> octet list \<times> world" where
  "sys_read fd buffer off n w =
     (let w' = w\<lparr>trace := trace w @ [Sys_read fd off n]\<rparr>
      in case read_replies w of
           [] \<Rightarrow> (- 1, buffer, w')
         | None # rs \<Rightarrow> (- 1, buffer, w'\<lparr>read_replies := rs\<rparr>)
         | Some bs # rs \<Rightarrow>
             (int (length (take n bs)), store buffer off (take n bs), w'\<lparr>read_replies := rs\<rparr>))"

text \<open>
  \<^verbatim>\<open>BCryptGenRandom(NULL, buffer.data(), cbBuffer, BCRYPT_USE_SYSTEM_PREFERRED_RNG)\<close>: the
  result is whether the status is \<^verbatim>\<open>STATUS_SUCCESS\<close>. The service writes the \<open>cbBuffer\<close>
  octets asked for to the start of the buffer, or fails and writes nothing; a reply with
  fewer octets than were asked for counts as a failure.
\<close>

definition sys_BCryptGenRandom ::
  "octet list \<Rightarrow> nat \<Rightarrow> world \<Rightarrow> bool \<times> octet list \<times> world" where
  "sys_BCryptGenRandom buffer cbBuffer w =
     (let w' = w\<lparr>trace := trace w @ [Sys_BCryptGenRandom cbBuffer]\<rparr>
      in case bcrypt_replies w of
           [] \<Rightarrow> (False, buffer, w')
         | None # rs \<Rightarrow> (False, buffer, w'\<lparr>bcrypt_replies := rs\<rparr>)
         | Some bs # rs \<Rightarrow>
             (if cbBuffer \<le> length bs
              then (True, store buffer 0 (take cbBuffer bs), w'\<lparr>bcrypt_replies := rs\<rparr>)
              else (False, buffer, w'\<lparr>bcrypt_replies := rs\<rparr>)))"

text \<open>
  \<^verbatim>\<open>static_cast<ULONG>(buffer.size())\<close>: \<^verbatim>\<open>ULONG\<close> has 32 bits, the conversion keeps the
  size modulo \<open>2 ^ 32\<close>.
\<close>

definition ULONG_cast :: "nat \<Rightarrow> nat" where
  "ULONG_cast n = n mod 2 ^ 32"

subsection \<open>The generator object\<close>

text \<open>
  The platform is chosen when the library is compiled. The members \<^verbatim>\<open>random_fd\<close> and
  \<^verbatim>\<open>pseudo_random_fd\<close> exist on Linux, macOS and FreeBSD only.
\<close>

datatype platform = Posix | Windows | Other_platform

datatype os_members =
    Posix_members (random_fd: int) (pseudo_random_fd: int)
  | Windows_members
  | No_members

record 'e RandomGenerator =
  pseudo_random_only :: bool
  distribution :: "nat \<times> nat"
  random_engine :: 'e
  members :: os_members

subsection \<open>Constructor and destructor\<close>

definition open_devices :: "platform \<Rightarrow> bool \<Rightarrow> world \<Rightarrow> os_members \<times> world" where
  "open_devices plat pro w =
     (case plat of
        Posix \<Rightarrow>
          (if pro then (Posix_members (- 1) (- 1), w)
           else
             (let (fd1, w1) = sys_open ''/dev/random'' w;
                  (fd2, w2) = sys_open ''/dev/urandom'' w1
              in (Posix_members fd1 fd2, w2)))
      | Windows \<Rightarrow> (Windows_members, w)
      | Other_platform \<Rightarrow> (No_members, w))"

text \<open>
  The members are initialised in the order of their declaration: the flag, the
  distribution with the bounds 0 and 255, the engine from the clock. The body opens the
  devices and then seeds the engine from \<^verbatim>\<open>std::random_device\<close>; when that throws, the
  handler seeds it from the clock, read again.
\<close>

definition RandomGenerator_ctor ::
  "'e cxx_random \<Rightarrow> platform \<Rightarrow> bool \<Rightarrow> world \<Rightarrow> 'e RandomGenerator \<times> world" where
  "RandomGenerator_ctor L plat pro w =
     (let (t0, w1) = clock_now w;
          e0 = engine_init L (word_of_int t0);
          (m, w2) = open_devices plat pro w1;
          (r, w3) = random_device w2
      in case r of
           Some s \<Rightarrow>
             (\<lparr>pseudo_random_only = pro, distribution = (0, 255),
               random_engine = engine_seed L s e0, members = m\<rparr>, w3)
         | None \<Rightarrow>
             (let (t1, w4) = clock_now w3
              in (\<lparr>pseudo_random_only = pro, distribution = (0, 255),
                   random_engine = engine_seed L (word_of_int t1) e0, members = m\<rparr>, w4)))"

definition RandomGenerator_dtor :: "'e RandomGenerator \<Rightarrow> world \<Rightarrow> world" where
  "RandomGenerator_dtor g w =
     (case members g of
        Posix_members rfd pfd \<Rightarrow>
          (let w1 = (if 0 \<le> rfd then sys_close rfd w else w)
           in if 0 \<le> pfd then sys_close pfd w1 else w1)
      | Windows_members \<Rightarrow> w
      | No_members \<Rightarrow> w)"

subsection \<open>The pseudo-random octet\<close>

text \<open>
  \<^verbatim>\<open>return distribution(random_engine);\<close> the value is converted to \<^verbatim>\<open>std::uint8_t\<close>,
  which keeps its low eight bits.
\<close>

definition GetPseudoRandomOctet ::
  "'e cxx_random \<Rightarrow> 'e RandomGenerator \<Rightarrow> octet \<times> 'e RandomGenerator" where
  "GetPseudoRandomOctet L g =
     (let (v, e) = dist_draw L (distribution g) (random_engine g)
      in (of_nat v, g\<lparr>random_engine := e\<rparr>))"

subsection \<open>Sourcing octets from the operating system\<close>

text \<open>
  The first block of the POSIX branch: one \<^verbatim>\<open>read\<close> from \<^verbatim>\<open>random_fd\<close> into the start of
  the buffer. The result is \<^verbatim>\<open>octets_sourced\<close>, the buffer and the world after it.
\<close>

definition read_random :: "int \<Rightarrow> octet list \<Rightarrow> world \<Rightarrow> nat \<times> octet list \<times> world" where
  "read_random rfd buffer w =
     (if 0 \<le> rfd
      then
        (let (result, b, w') = sys_read rfd buffer 0 (length buffer) w
         in (if 0 < result then nat result else 0, b, w'))
      else (0, buffer, w))"

text \<open>
  The second block: when more octets are needed, one \<^verbatim>\<open>read\<close> from \<^verbatim>\<open>pseudo_random_fd\<close>
  into \<^verbatim>\<open>buffer.data() + octets_sourced\<close>, of \<^verbatim>\<open>buffer.size() - octets_sourced\<close> octets.
\<close>

definition read_pseudo_random ::
  "int \<Rightarrow> nat \<Rightarrow> octet list \<Rightarrow> world \<Rightarrow> nat \<times> octet list \<times> world" where
  "read_pseudo_random pfd octets_sourced buffer w =
     (if octets_sourced < length buffer \<and> 0 \<le> pfd
      then
        (let (result, b, w') =
               sys_read pfd buffer octets_sourced (length buffer - octets_sourced) w
         in (if 0 < result then octets_sourced + nat result else octets_sourced, b, w'))
      else (octets_sourced, buffer, w))"

text \<open>
  The result is the count returned, the buffer after the call and the world after it.
  The function is \<^verbatim>\<open>const\<close>: the generator is not changed.
\<close>

definition SourceRandomOctets ::
  "'e RandomGenerator \<Rightarrow> octet list \<Rightarrow> world \<Rightarrow> nat \<times> octet list \<times> world" where
  "SourceRandomOctets g buffer w =
     (if buffer = [] \<or> pseudo_random_only g then (0, buffer, w)
      else
        (case members g of
           Posix_members rfd pfd \<Rightarrow>
             (let (octets_sourced, buffer1, w1) = read_random rfd buffer w
              in read_pseudo_random pfd octets_sourced buffer1 w1)
         | Windows_members \<Rightarrow>
             (let (success, b, w') =
                    sys_BCryptGenRandom buffer (ULONG_cast (length buffer)) w
              in (if success then length buffer else 0, b, w'))
         | No_members \<Rightarrow> (0, buffer, w)))"

subsection \<open>The public retrieval functions\<close>

definition GetRandomOctet ::
  "'e cxx_random \<Rightarrow> 'e RandomGenerator \<Rightarrow> world \<Rightarrow> octet \<times> 'e RandomGenerator \<times> world" where
  "GetRandomOctet L g w =
     (let (sourced, buffer, w') = SourceRandomOctets g [0] w;
          (p, g') = GetPseudoRandomOctet L g
      in (hd buffer XOR p, g', w'))"

text \<open>
  \<^verbatim>\<open>for (std::size_t i = 0; i < count; i++) octets[i] ^= GetPseudoRandomOctet();\<close>
\<close>

function xor_loop_indexed ::
  "'e cxx_random \<Rightarrow> nat \<Rightarrow> nat \<Rightarrow> octet list \<Rightarrow> 'e RandomGenerator
     \<Rightarrow> octet list \<times> 'e RandomGenerator" where
  "xor_loop_indexed L i count octets g =
     (if i < count
      then
        (let (p, g') = GetPseudoRandomOctet L g
         in xor_loop_indexed L (i + 1) count (octets[i := octets ! i XOR p]) g')
      else (octets, g))"
  by pat_completeness auto
termination
  by (relation "measure (\<lambda>(L, i, count, octets, g). count - i)") auto

declare xor_loop_indexed.simps [simp del]

text \<open>
  \<^verbatim>\<open>for (auto &octet : octets) octet ^= GetPseudoRandomOctet();\<close>
\<close>

fun xor_loop_range ::
  "'e cxx_random \<Rightarrow> octet list \<Rightarrow> 'e RandomGenerator \<Rightarrow> octet list \<times> 'e RandomGenerator" where
  "xor_loop_range L [] g = ([], g)"
| "xor_loop_range L (octet # rest) g =
     (let (p, g1) = GetPseudoRandomOctet L g;
          (rest', g2) = xor_loop_range L rest g1
      in ((octet XOR p) # rest', g2))"

text \<open>
  The allocating overload, \<^verbatim>\<open>GetRandomOctets(std::size_t count)\<close>, the one retrieval
  function that is not \<^verbatim>\<open>noexcept\<close>. Its first statement builds the vector; an exception
  thrown there leaves the function before anything else is done. The first component of
  the result is the exception thrown or the vector returned.
\<close>

definition GetRandomOctets_count ::
  "'e cxx_random \<Rightarrow> 'e RandomGenerator \<Rightarrow> nat \<Rightarrow> world
     \<Rightarrow> (cxx_exception + octet list) \<times> 'e RandomGenerator \<times> world" where
  "GetRandomOctets_count L g count w =
     (case vector_new L count of
        Inl exception \<Rightarrow> (Inl exception, g, w)
      | Inr octets \<Rightarrow>
          (if count = 0 then (Inr [], g, w)
           else
             (let (sourced, octets1, w') = SourceRandomOctets g octets w;
                  (octets', g') = xor_loop_indexed L 0 count octets1 g
              in (Inr octets', g', w'))))"

text \<open>
  The overload that fills the caller's buffer in place,
  \<^verbatim>\<open>GetRandomOctets(std::span<std::uint8_t> octets)\<close>. The first component of the result
  is the caller's buffer after the call.
\<close>

definition GetRandomOctets_span ::
  "'e cxx_random \<Rightarrow> 'e RandomGenerator \<Rightarrow> octet list \<Rightarrow> world
     \<Rightarrow> octet list \<times> 'e RandomGenerator \<times> world" where
  "GetRandomOctets_span L g octets w =
     (if octets = [] then (octets, g, w)
      else
        (let (sourced, octets1, w') = SourceRandomOctets g octets w;
             (octets', g') = xor_loop_range L octets1 g
         in (octets', g', w')))"

subsection \<open>Successive draws and successive calls\<close>

text \<open>
  \<open>advance L g\<close> is the generator after one call of \<^verbatim>\<open>GetPseudoRandomOctet\<close>, and
  \<open>prng_octet L g i\<close> the octet that the call number \<open>i\<close> (from 0) returns when the
  calls start at \<open>g\<close>.
\<close>

definition advance :: "'e cxx_random \<Rightarrow> 'e RandomGenerator \<Rightarrow> 'e RandomGenerator" where
  "advance L g = snd (GetPseudoRandomOctet L g)"

definition prng_octet :: "'e cxx_random \<Rightarrow> 'e RandomGenerator \<Rightarrow> nat \<Rightarrow> octet" where
  "prng_octet L g i = fst (GetPseudoRandomOctet L ((advance L ^^ i) g))"

text \<open>\<open>n\<close> successive calls of \<^verbatim>\<open>GetRandomOctet\<close>, the octets in the order returned.\<close>

fun GetRandomOctet_times ::
  "'e cxx_random \<Rightarrow> nat \<Rightarrow> 'e RandomGenerator \<Rightarrow> world
     \<Rightarrow> octet list \<times> 'e RandomGenerator \<times> world" where
  "GetRandomOctet_times L 0 g w = ([], g, w)"
| "GetRandomOctet_times L (Suc n) g w =
     (let (x, g1, w1) = GetRandomOctet L g w;
          (xs, g2, w2) = GetRandomOctet_times L n g1 w1
      in (x # xs, g2, w2))"

text \<open>
  The calls a client, or a subclass for the protected \<^verbatim>\<open>SourceRandomOctets\<close>, can make
  on a generator during its lifetime, and a run of such calls.
\<close>

datatype call =
    Call_GetRandomOctet
  | Call_GetRandomOctets_count nat
  | Call_GetRandomOctets_span "octet list"
  | Call_SourceRandomOctets "octet list"

fun run_call ::
  "'e cxx_random \<Rightarrow> call \<Rightarrow> 'e RandomGenerator \<times> world \<Rightarrow> 'e RandomGenerator \<times> world" where
  "run_call L Call_GetRandomOctet (g, w) = snd (GetRandomOctet L g w)"
| "run_call L (Call_GetRandomOctets_count n) (g, w) = snd (GetRandomOctets_count L g n w)"
| "run_call L (Call_GetRandomOctets_span octets) (g, w) = snd (GetRandomOctets_span L g octets w)"
| "run_call L (Call_SourceRandomOctets buffer) (g, w) = (g, snd (snd (SourceRandomOctets g buffer w)))"

fun run_calls ::
  "'e cxx_random \<Rightarrow> call list \<Rightarrow> 'e RandomGenerator \<times> world \<Rightarrow> 'e RandomGenerator \<times> world" where
  "run_calls L [] s = s"
| "run_calls L (c # cs) s = run_calls L cs (run_call L c s)"

text \<open>
  A whole lifetime: construction, a run of calls, destruction. The result is the
  generator as it was when destroyed and the world afterwards.
\<close>

definition lifetime ::
  "'e cxx_random \<Rightarrow> platform \<Rightarrow> bool \<Rightarrow> call list \<Rightarrow> world \<Rightarrow> 'e RandomGenerator \<times> world" where
  "lifetime L plat pro cs w =
     (let (g, w1) = RandomGenerator_ctor L plat pro w;
          (g', w2) = run_calls L cs (g, w1)
      in (g', RandomGenerator_dtor g' w2))"

subsection \<open>A small library instance for closed examples\<close>

text \<open>
  A deterministic generator whose state is a counter: seeding sets the counter, a draw
  from the bounds \<open>(a, b)\<close> returns \<open>a + e mod (b - a + 1)\<close> and steps the counter. A
  vector holds at most \<open>2 ^ 63 - 1\<close> octets, and the allocator supplies up to 65536 octets.
  It stands for the C++ library where a statement is evaluated on concrete values.
\<close>

definition counter_random :: "nat cxx_random" where
  "counter_random =
     \<lparr>engine_init = unat,
      engine_seed = (\<lambda>s e. unat s),
      dist_draw = (\<lambda>(a, b) e. (a + e mod (b - a + 1), Suc e)),
      vector_max_size = 9223372036854775807,
      allocate = (\<lambda>n. n \<le> 65536)\<rparr>"

subsection \<open>Concrete generators and worlds for closed examples\<close>

text \<open>
  A mixed-mode POSIX generator with both descriptors open, and a world in which the
  first \<^verbatim>\<open>read\<close> delivers one octet and the second fails.
\<close>

definition example_generator :: "nat RandomGenerator" where
  "example_generator =
     \<lparr>pseudo_random_only = False, distribution = (0, 255), random_engine = 7,
      members = Posix_members 3 4\<rparr>"

definition example_world :: world where
  "example_world =
     \<lparr>clock_ticks = [], random_device_replies = [], open_replies = [],
      read_replies = [Some [16], None], bcrypt_replies = [], trace = []\<rparr>"

text \<open>
  A mixed-mode Windows generator, and a world in which the first call of
  \<^verbatim>\<open>BCryptGenRandom\<close> succeeds and the second fails.
\<close>

definition example_windows_generator :: "nat RandomGenerator" where
  "example_windows_generator =
     \<lparr>pseudo_random_only = False, distribution = (0, 255), random_engine = 7,
      members = Windows_members\<rparr>"

definition example_windows_world :: world where
  "example_windows_world =
     \<lparr>clock_ticks = [], random_device_replies = [], open_replies = [],
      read_replies = [], bcrypt_replies = [Some [5, 6, 7], None], trace = []\<rparr>"

text \<open>
  A world at start-up: two clock readings, a working \<^verbatim>\<open>std::random_device\<close>, both devices
  open and deliver octets. And a run of calls that uses every public function and the
  protected \<^verbatim>\<open>SourceRandomOctets\<close>.
\<close>

definition example_boot_world :: world where
  "example_boot_world =
     \<lparr>clock_ticks = [1000, 2000], random_device_replies = [Some 5], open_replies = [3, 4],
      read_replies = [Some [16], Some [32, 33, 34]], bcrypt_replies = [], trace = []\<rparr>"

definition example_calls :: "call list" where
  "example_calls =
     [Call_GetRandomOctet, Call_GetRandomOctets_count 2, Call_GetRandomOctets_span [1, 2],
      Call_SourceRandomOctets [0]]"

section \<open>Properties\<close>

subsection \<open>What a read leaves in the buffer\<close>

lemma length_store: "off + length bs \<le> length buffer \<Longrightarrow> length (store buffer off bs) = length buffer"
  by (simp add: store_def)

lemma nth_store_outside:
  "off + length bs \<le> length buffer \<Longrightarrow> i < length buffer \<Longrightarrow> i < off \<or> off + length bs \<le> i
     \<Longrightarrow> store buffer off bs ! i = buffer ! i"
  by (auto simp: store_def nth_append)

lemma store_Nil: "store buffer off [] = buffer"
  by (simp add: store_def)

lemma sys_read_cases:
  "sys_read fd buffer off n w = (r, b, w') \<Longrightarrow>
     (r = - 1 \<and> b = buffer) \<or>
     (\<exists>bs. length bs \<le> n \<and> r = int (length bs) \<and> b = store buffer off bs)"
  by (auto simp: sys_read_def Let_def split: list.splits option.splits intro!: exI [of _ "take n _"])

lemma sys_read_facts:
  assumes "sys_read fd buffer off n w = (r, b, w')" and "off + n \<le> length buffer"
  shows "length b = length buffer" and "r \<le> int n"
    and "i < length buffer \<Longrightarrow> i < off \<or> off + nat r \<le> i \<Longrightarrow> b ! i = buffer ! i"
    and "r \<le> 0 \<Longrightarrow> b = buffer"
  using sys_read_cases [OF assms(1)] assms(2)
  by (auto simp: length_store nth_store_outside store_Nil)

lemma sys_read_trace:
  "sys_read fd buffer off n w = (r, b, w') \<Longrightarrow> trace w' = trace w @ [Sys_read fd off n]"
  by (auto simp: sys_read_def Let_def split: list.splits option.splits)

lemma sys_BCryptGenRandom_cases:
  "sys_BCryptGenRandom buffer n w = (ok, b, w') \<Longrightarrow> n \<le> length buffer \<Longrightarrow>
     (\<not> ok \<and> b = buffer) \<or> (ok \<and> length b = length buffer)"
  by (auto simp: sys_BCryptGenRandom_def Let_def length_store
      split: list.splits option.splits if_splits)

lemma sys_BCryptGenRandom_trace:
  "sys_BCryptGenRandom buffer n w = (ok, b, w') \<Longrightarrow>
     trace w' = trace w @ [Sys_BCryptGenRandom n]"
  by (auto simp: sys_BCryptGenRandom_def Let_def split: list.splits option.splits if_splits)

lemma ULONG_cast_le: "ULONG_cast n \<le> n"
  by (simp add: ULONG_cast_def)

lemma ULONG_cast_small: "n < 2 ^ 32 \<Longrightarrow> ULONG_cast n = n"
  by (simp add: ULONG_cast_def)

lemma read_random_facts:
  assumes "read_random rfd buffer w = (k, b, w')"
  shows "length b = length buffer" and "k \<le> length buffer"
    and "k \<le> i \<Longrightarrow> i < length buffer \<Longrightarrow> b ! i = buffer ! i"
proof -
  have all: "length b = length buffer \<and> k \<le> length buffer \<and>
         (\<forall>i. k \<le> i \<and> i < length buffer \<longrightarrow> b ! i = buffer ! i)"
  proof (cases "0 \<le> rfd")
    case False
    with assms show ?thesis by (simp add: read_random_def)
  next
    case True
    obtain r b0 w0 where rd: "sys_read rfd buffer 0 (length buffer) w = (r, b0, w0)"
      using prod_cases3 by blast
    from assms True rd have eq: "k = (if 0 < r then nat r else 0)" "b = b0"
      by (auto simp: read_random_def)
    have len: "0 + length buffer \<le> length buffer" by simp
    note f = sys_read_facts [OF rd len]
    from f(1) f(2) eq have "length b = length buffer" "k \<le> length buffer"
      by auto
    moreover have "b ! i = buffer ! i" if "k \<le> i" "i < length buffer" for i
    proof (cases "0 < r")
      case True
      with that eq f(3) [of i] show ?thesis by simp
    next
      case False
      with f(4) eq show ?thesis by simp
    qed
    ultimately show ?thesis by blast
  qed
  from all show "length b = length buffer" and "k \<le> length buffer" by simp_all
  from all show "k \<le> i \<Longrightarrow> i < length buffer \<Longrightarrow> b ! i = buffer ! i" by simp
qed

lemma read_pseudo_random_facts:
  assumes "read_pseudo_random pfd s buffer w = (k, b, w')" and "s \<le> length buffer"
  shows "length b = length buffer" and "k \<le> length buffer" and "s \<le> k"
    and "k \<le> i \<Longrightarrow> i < length buffer \<Longrightarrow> b ! i = buffer ! i"
    and "i < s \<Longrightarrow> b ! i = buffer ! i"
proof -
  have all: "length b = length buffer \<and> k \<le> length buffer \<and> s \<le> k \<and>
         (\<forall>i. (k \<le> i \<or> i < s) \<and> i < length buffer \<longrightarrow> b ! i = buffer ! i)"
  proof (cases "s < length buffer \<and> 0 \<le> pfd")
    case False
    with assms show ?thesis by (auto simp: read_pseudo_random_def)
  next
    case True
    obtain r b0 w0 where rd: "sys_read pfd buffer s (length buffer - s) w = (r, b0, w0)"
      using prod_cases3 by blast
    from assms True rd have eq: "k = (if 0 < r then s + nat r else s)" "b = b0"
      by (auto simp: read_pseudo_random_def)
    have len: "s + (length buffer - s) \<le> length buffer" using assms(2) by simp
    note f = sys_read_facts [OF rd len]
    from f(1) f(2) eq assms(2) have "length b = length buffer" "k \<le> length buffer" "s \<le> k"
      by auto
    moreover have "b ! i = buffer ! i" if "k \<le> i \<or> i < s" "i < length buffer" for i
    proof (cases "0 < r")
      case True
      with that eq f(3) [of i] show ?thesis by auto
    next
      case False
      with f(4) eq show ?thesis by simp
    qed
    ultimately show ?thesis by blast
  qed
  from all show "length b = length buffer" and "k \<le> length buffer" and "s \<le> k" by simp_all
  from all show "k \<le> i \<Longrightarrow> i < length buffer \<Longrightarrow> b ! i = buffer ! i" by simp
  from all assms(2) show "i < s \<Longrightarrow> b ! i = buffer ! i" by simp
qed

lemma SourceRandomOctets_facts:
  assumes "SourceRandomOctets g buffer w = (k, b, w')"
  shows "length b = length buffer" and "k \<le> length buffer"
    and "k \<le> i \<Longrightarrow> i < length buffer \<Longrightarrow> b ! i = buffer ! i"
proof -
  have all: "length b = length buffer \<and> k \<le> length buffer \<and>
         (\<forall>i. k \<le> i \<and> i < length buffer \<longrightarrow> b ! i = buffer ! i)"
  proof (cases "buffer = [] \<or> pseudo_random_only g")
    case True
    with assms show ?thesis by (auto simp: SourceRandomOctets_def)
  next
    case False
    show ?thesis
    proof (cases "members g")
      case (Posix_members rfd pfd)
      obtain s1 b1 w1 where first: "read_random rfd buffer w = (s1, b1, w1)"
        using prod_cases3 by blast
      from assms False Posix_members first
      have second: "read_pseudo_random pfd s1 b1 w1 = (k, b, w')"
        by (simp add: SourceRandomOctets_def)
      note f1 = read_random_facts [OF first]
      from f1(1) f1(2) have "s1 \<le> length b1" by simp
      note f2 = read_pseudo_random_facts [OF second this]
      from f1 f2 show ?thesis by auto
    next
      case Windows_members
      obtain ok b0 w0 where
        bc: "sys_BCryptGenRandom buffer (ULONG_cast (length buffer)) w = (ok, b0, w0)"
        using prod_cases3 by blast
      with assms False Windows_members
      have "k = (if ok then length buffer else 0)" "b = b0"
        by (auto simp: SourceRandomOctets_def)
      with sys_BCryptGenRandom_cases [OF bc ULONG_cast_le] show ?thesis by auto
    next
      case No_members
      with assms False show ?thesis by (auto simp: SourceRandomOctets_def)
    qed
  qed
  from all show "length b = length buffer" and "k \<le> length buffer" by simp_all
  from all show "k \<le> i \<Longrightarrow> i < length buffer \<Longrightarrow> b ! i = buffer ! i" by simp
qed

lemma SourceRandomOctets_none:
  assumes "SourceRandomOctets g buffer w = (0, b, w')"
  shows "b = buffer"
  using SourceRandomOctets_facts [OF assms] by (auto intro: nth_equalityI)

lemma SourceRandomOctets_skip:
  "buffer = [] \<or> pseudo_random_only g \<Longrightarrow> SourceRandomOctets g buffer w = (0, buffer, w)"
  by (simp add: SourceRandomOctets_def)

subsection \<open>The two loops\<close>

lemma GetPseudoRandomOctet_eq:
  "GetPseudoRandomOctet L g = (prng_octet L g 0, advance L g)"
  by (simp add: prng_octet_def advance_def)

lemma prng_octet_advance: "prng_octet L (advance L g) i = prng_octet L g (Suc i)"
  by (simp add: prng_octet_def funpow_swap1)

lemma xor_loop_range_eq:
  "xor_loop_range L octets g =
     (map (\<lambda>i. octets ! i XOR prng_octet L g i) [0..<length octets],
      (advance L ^^ length octets) g)"
proof (induction octets arbitrary: g)
  case Nil
  show ?case by simp
next
  case (Cons x xs)
  have "map (\<lambda>i. (x # xs) ! i XOR prng_octet L g i) [0..<length (x # xs)] =
        (x XOR prng_octet L g 0) # map (\<lambda>i. xs ! i XOR prng_octet L (advance L g) i) [0..<length xs]"
    by (simp add: upt_conv_Cons map_Suc_upt [symmetric] prng_octet_advance del: upt_Suc)
  then show ?case
    by (simp add: GetPseudoRandomOctet_eq Cons.IH funpow_swap1)
qed

lemma xor_loop_indexed_range:
  "i \<le> count \<Longrightarrow> length octets = count \<Longrightarrow>
     xor_loop_indexed L i count octets g =
       (take i octets @ fst (xor_loop_range L (drop i octets) g),
        snd (xor_loop_range L (drop i octets) g))"
proof (induction L i count octets g rule: xor_loop_indexed.induct)
  case (1 L i count octets g)
  show ?case
  proof (cases "i < count")
    case False
    with "1.prems" show ?thesis
      by (subst xor_loop_indexed.simps) simp
  next
    case True
    obtain p g' where pg: "GetPseudoRandomOctet L g = (p, g')"
      by (cases "GetPseudoRandomOctet L g") auto
    let ?octets = "octets[i := octets ! i XOR p]"
    have ih: "xor_loop_indexed L (i + 1) count ?octets g' =
       (take (i + 1) ?octets @ fst (xor_loop_range L (drop (i + 1) ?octets) g'),
        snd (xor_loop_range L (drop (i + 1) ?octets) g'))"
      using "1.IH" [OF True pg [symmetric] refl] True "1.prems" by simp
    have dr: "drop i octets = octets ! i # drop (Suc i) octets"
      using True "1.prems" by (simp add: Cons_nth_drop_Suc)
    have tk: "take (Suc i) ?octets = take i octets @ [octets ! i XOR p]"
      using True "1.prems" by (simp add: take_Suc_conv_app_nth)
    have "xor_loop_indexed L i count octets g = xor_loop_indexed L (i + 1) count ?octets g'"
      using True pg by (subst xor_loop_indexed.simps) simp
    with ih dr tk pg show ?thesis
      by (simp add: split_def Let_def)
  qed
qed

lemma xor_loop_indexed_eq:
  "length octets = count \<Longrightarrow>
     xor_loop_indexed L 0 count octets g =
       (map (\<lambda>i. octets ! i XOR prng_octet L g i) [0..<count], (advance L ^^ count) g)"
  using xor_loop_indexed_range [of 0 count octets L g]
  by (simp add: xor_loop_range_eq)

subsection \<open>What the calls leave unchanged\<close>

lemma clock_now_frame:
  "random_device_replies (snd (clock_now w)) = random_device_replies w"
  "open_replies (snd (clock_now w)) = open_replies w"
  "read_replies (snd (clock_now w)) = read_replies w"
  "bcrypt_replies (snd (clock_now w)) = bcrypt_replies w"
  "trace (snd (clock_now w)) = trace w"
  by (simp_all add: clock_now_def split: list.splits)

lemma random_device_frame:
  "clock_ticks (snd (random_device w)) = clock_ticks w"
  "open_replies (snd (random_device w)) = open_replies w"
  "read_replies (snd (random_device w)) = read_replies w"
  "bcrypt_replies (snd (random_device w)) = bcrypt_replies w"
  "trace (snd (random_device w)) = trace w"
  by (simp_all add: random_device_def split: list.splits)

lemma sys_open_frame:
  "clock_ticks (snd (sys_open path w)) = clock_ticks w"
  "random_device_replies (snd (sys_open path w)) = random_device_replies w"
  "read_replies (snd (sys_open path w)) = read_replies w"
  "bcrypt_replies (snd (sys_open path w)) = bcrypt_replies w"
  by (simp_all add: sys_open_def Let_def split: list.splits)

lemma open_devices_frame:
  "clock_ticks (snd (open_devices plat pro w)) = clock_ticks w"
  "random_device_replies (snd (open_devices plat pro w)) = random_device_replies w"
  "read_replies (snd (open_devices plat pro w)) = read_replies w"
  "bcrypt_replies (snd (open_devices plat pro w)) = bcrypt_replies w"
  by (simp_all add: open_devices_def sys_open_frame split_def Let_def split: platform.splits)

lemma open_devices_pseudo_random_only:
  "open_devices plat True w =
     (case plat of Posix \<Rightarrow> Posix_members (- 1) (- 1) | Windows \<Rightarrow> Windows_members
      | Other_platform \<Rightarrow> No_members, w)"
  by (simp add: open_devices_def split: platform.splits)

lemma clock_now_fst:
  "fst (clock_now w) = (if 0 < length (clock_ticks w) then clock_ticks w ! 0 else 0)"
  "clock_ticks (snd (clock_now w)) = tl (clock_ticks w)"
  by (simp_all add: clock_now_def split: list.splits)

lemma random_device_fst:
  "fst (random_device w) = (case random_device_replies w of [] \<Rightarrow> None | r # rs \<Rightarrow> r)"
  by (simp add: random_device_def split: list.splits)

lemma GetPseudoRandomOctet_frame:
  "pseudo_random_only (snd (GetPseudoRandomOctet L g)) = pseudo_random_only g"
  "distribution (snd (GetPseudoRandomOctet L g)) = distribution g"
  "members (snd (GetPseudoRandomOctet L g)) = members g"
  by (simp_all add: GetPseudoRandomOctet_def split_def Let_def)

lemma advance_frame:
  "pseudo_random_only (advance L g) = pseudo_random_only g"
  "distribution (advance L g) = distribution g"
  "members (advance L g) = members g"
  by (simp_all add: advance_def GetPseudoRandomOctet_frame)

lemma advance_funpow_frame:
  "pseudo_random_only ((advance L ^^ n) g) = pseudo_random_only g"
  "distribution ((advance L ^^ n) g) = distribution g"
  "members ((advance L ^^ n) g) = members g"
  by (induction n) (simp_all add: advance_frame)

lemma advance_eq:
  "advance L g = g\<lparr>random_engine := snd (dist_draw L (distribution g) (random_engine g))\<rparr>"
  by (simp add: advance_def GetPseudoRandomOctet_def split_def Let_def)

lemma advance_funpow_engine:
  "(advance L ^^ n) g =
     g\<lparr>random_engine := ((\<lambda>e. snd (dist_draw L (distribution g) e)) ^^ n) (random_engine g)\<rparr>"
  by (induction n) (simp_all add: advance_eq)

lemma GetRandomOctet_generator: "fst (snd (GetRandomOctet L g w)) = advance L g"
  by (simp add: GetRandomOctet_def split_def Let_def advance_def)

lemma vector_new_cases:
  "(\<exists>exception. vector_new L n = Inl exception) \<or> vector_new L n = Inr (replicate n 0)"
  by (simp add: vector_new_def)

lemma vector_new_built_iff:
  "vector_new L n = Inr (replicate n 0) \<longleftrightarrow>
     n \<le> vector_max_size L \<and> (n = 0 \<or> allocate L n)"
  by (auto simp: vector_new_def)

lemma GetRandomOctets_count_throws:
  "vector_new L n = Inl exception \<Longrightarrow> GetRandomOctets_count L g n w = (Inl exception, g, w)"
  by (simp add: GetRandomOctets_count_def)

lemma GetRandomOctets_count_built:
  assumes "vector_new L n = Inr (replicate n 0)"
    and "SourceRandomOctets g (replicate n 0) w = (k, b, w')"
  shows "GetRandomOctets_count L g n w =
     (Inr (map (\<lambda>i. b ! i XOR prng_octet L g i) [0..<n]), (advance L ^^ n) g,
      if n = 0 then w else w')"
proof (cases "n = 0")
  case True
  with assms(1) show ?thesis by (simp add: GetRandomOctets_count_def)
next
  case False
  from SourceRandomOctets_facts(1) [OF assms(2)] have len: "length b = n" by simp
  from False assms show ?thesis
    by (simp add: GetRandomOctets_count_def xor_loop_indexed_eq [OF len])
qed

lemma GetRandomOctets_count_generator:
  "fst (snd (GetRandomOctets_count L g n w)) = g \<or>
   fst (snd (GetRandomOctets_count L g n w)) = (advance L ^^ n) g"
proof -
  obtain k b w' where src: "SourceRandomOctets g (replicate n 0) w = (k, b, w')"
    using prod_cases3 by blast
  from vector_new_cases [of L n] show ?thesis
  proof
    assume "\<exists>exception. vector_new L n = Inl exception"
    then show ?thesis by (auto simp: GetRandomOctets_count_throws)
  next
    assume "vector_new L n = Inr (replicate n 0)"
    from GetRandomOctets_count_built [OF this src] show ?thesis by simp
  qed
qed

lemma GetRandomOctets_count_frame:
  "pseudo_random_only (fst (snd (GetRandomOctets_count L g n w))) = pseudo_random_only g \<and>
   distribution (fst (snd (GetRandomOctets_count L g n w))) = distribution g \<and>
   members (fst (snd (GetRandomOctets_count L g n w))) = members g"
  using GetRandomOctets_count_generator [of L g n w] by (auto simp: advance_funpow_frame)

lemma GetRandomOctets_span_generator:
  "fst (snd (GetRandomOctets_span L g octets w)) = (advance L ^^ length octets) g"
proof (cases "octets = []")
  case True
  then show ?thesis by (simp add: GetRandomOctets_span_def)
next
  case False
  obtain k b w' where src: "SourceRandomOctets g octets w = (k, b, w')"
    using prod_cases3 by blast
  from SourceRandomOctets_facts(1) [OF src] have len: "length b = length octets" .
  from False src show ?thesis
    by (simp add: GetRandomOctets_span_def xor_loop_range_eq len)
qed

lemma run_call_frame:
  "pseudo_random_only (fst (run_call L c (g, w))) = pseudo_random_only g \<and>
   distribution (fst (run_call L c (g, w))) = distribution g \<and>
   members (fst (run_call L c (g, w))) = members g"
  by (cases c)
    (simp_all add: GetRandomOctet_generator GetRandomOctets_count_frame
      GetRandomOctets_span_generator advance_frame advance_funpow_frame)

lemma run_calls_frame:
  "pseudo_random_only (fst (run_calls L cs (g, w))) = pseudo_random_only g \<and>
   distribution (fst (run_calls L cs (g, w))) = distribution g \<and>
   members (fst (run_calls L cs (g, w))) = members g"
proof (induction cs arbitrary: g w)
  case Nil
  show ?case by simp
next
  case (Cons c cs)
  obtain g1 w1 where step: "run_call L c (g, w) = (g1, w1)"
    by (cases "run_call L c (g, w)") auto
  with run_call_frame [of L c g w] Cons.IH [of g1 w1] show ?case by simp
qed

lemma ctor_frame:
  "pseudo_random_only (fst (RandomGenerator_ctor L plat pro w)) = pro \<and>
   distribution (fst (RandomGenerator_ctor L plat pro w)) = (0, 255)"
  by (simp add: RandomGenerator_ctor_def split_def Let_def split: option.splits)

lemma constructed_distribution:
  "distribution (fst (run_calls L cs (RandomGenerator_ctor L plat pro w))) = (0, 255)"
proof -
  obtain g0 w0 where c: "RandomGenerator_ctor L plat pro w = (g0, w0)"
    by (cases "RandomGenerator_ctor L plat pro w") auto
  with run_calls_frame [of L cs g0 w0] ctor_frame [of L plat pro w] show ?thesis by simp
qed

subsection \<open>The pseudo-random-only mode\<close>

lemma GetRandomOctet_pseudo_random_only:
  "pseudo_random_only g \<Longrightarrow> GetRandomOctet L g w = (prng_octet L g 0, advance L g, w)"
  by (simp add: GetRandomOctet_def SourceRandomOctets_skip GetPseudoRandomOctet_eq)

lemma GetRandomOctets_count_pseudo_random_only:
  "pseudo_random_only g \<Longrightarrow> vector_new L n = Inr (replicate n 0) \<Longrightarrow>
     GetRandomOctets_count L g n w = (Inr (map (prng_octet L g) [0..<n]), (advance L ^^ n) g, w)"
  using GetRandomOctets_count_built [of L n g w 0 "replicate n 0" w]
  by (simp add: SourceRandomOctets_skip cong: map_cong)

lemma GetRandomOctets_span_pseudo_random_only:
  "pseudo_random_only g \<Longrightarrow>
     GetRandomOctets_span L g octets w =
       (map (\<lambda>i. octets ! i XOR prng_octet L g i) [0..<length octets],
        (advance L ^^ length octets) g, w)"
  by (cases "octets = []")
    (simp_all add: GetRandomOctets_span_def SourceRandomOctets_skip xor_loop_range_eq)

lemma GetRandomOctet_times_pseudo_random_only:
  "pseudo_random_only g \<Longrightarrow>
     GetRandomOctet_times L n g w = (map (prng_octet L g) [0..<n], (advance L ^^ n) g, w)"
proof (induction n arbitrary: g)
  case 0
  show ?case by simp
next
  case (Suc n)
  have pro: "pseudo_random_only (advance L g)"
    using Suc.prems by (simp add: advance_frame)
  have "map (prng_octet L g) [0..<Suc n] =
          prng_octet L g 0 # map (prng_octet L (advance L g)) [0..<n]"
    by (simp add: upt_conv_Cons map_Suc_upt [symmetric] prng_octet_advance del: upt_Suc)
  then show ?case
    using Suc.prems Suc.IH [OF pro]
    by (simp add: GetRandomOctet_pseudo_random_only funpow_swap1 del: upt_Suc)
qed

lemma run_call_pseudo_random_only:
  assumes "pseudo_random_only g"
  shows "\<exists>g'. run_call L c (g, w) = (g', w) \<and> pseudo_random_only g' \<and>
           members g' = members g \<and> distribution g' = distribution g"
proof (cases c)
  case Call_GetRandomOctet
  with assms show ?thesis
    by (simp add: GetRandomOctet_pseudo_random_only advance_frame)
next
  case (Call_GetRandomOctets_count n)
  from vector_new_cases [of L n] show ?thesis
  proof
    assume "\<exists>exception. vector_new L n = Inl exception"
    with assms Call_GetRandomOctets_count show ?thesis
      by (auto simp: GetRandomOctets_count_throws)
  next
    assume "vector_new L n = Inr (replicate n 0)"
    with assms Call_GetRandomOctets_count show ?thesis
      by (simp add: GetRandomOctets_count_pseudo_random_only advance_funpow_frame)
  qed
next
  case (Call_GetRandomOctets_span octets)
  with assms show ?thesis
    by (simp add: GetRandomOctets_span_pseudo_random_only advance_funpow_frame)
next
  case (Call_SourceRandomOctets buffer)
  with assms show ?thesis
    by (simp add: SourceRandomOctets_skip)
qed

lemma run_calls_pseudo_random_only:
  "pseudo_random_only g \<Longrightarrow>
     \<exists>g'. run_calls L cs (g, w) = (g', w) \<and> pseudo_random_only g' \<and>
       members g' = members g \<and> distribution g' = distribution g"
proof (induction cs arbitrary: g)
  case Nil
  then show ?case by simp
next
  case (Cons c cs)
  from run_call_pseudo_random_only [OF Cons.prems, of L c w]
  obtain g1 where g1: "run_call L c (g, w) = (g1, w)" "pseudo_random_only g1"
    "members g1 = members g" "distribution g1 = distribution g"
    by blast
  from Cons.IH [OF g1(2)] g1 show ?case by auto
qed

lemma ctor_pseudo_random_only:
  "\<exists>g w'. RandomGenerator_ctor L plat True w = (g, w') \<and> pseudo_random_only g \<and>
     members g = (case plat of Posix \<Rightarrow> Posix_members (- 1) (- 1) | Windows \<Rightarrow> Windows_members
                  | Other_platform \<Rightarrow> No_members) \<and>
     trace w' = trace w \<and> open_replies w' = open_replies w \<and>
     read_replies w' = read_replies w \<and> bcrypt_replies w' = bcrypt_replies w"
proof -
  obtain t0 w1 where c0: "clock_now w = (t0, w1)" by (cases "clock_now w") auto
  obtain r w3 where rd: "random_device w1 = (r, w3)" by (cases "random_device w1") auto
  obtain t1 w4 where c1: "clock_now w3 = (t1, w4)" by (cases "clock_now w3") auto
  have f1: "trace w1 = trace w" "open_replies w1 = open_replies w"
    "read_replies w1 = read_replies w" "bcrypt_replies w1 = bcrypt_replies w"
    using clock_now_frame [of w] c0 by simp_all
  have f3: "trace w3 = trace w1" "open_replies w3 = open_replies w1"
    "read_replies w3 = read_replies w1" "bcrypt_replies w3 = bcrypt_replies w1"
    using random_device_frame [of w1] rd by simp_all
  have f4: "trace w4 = trace w3" "open_replies w4 = open_replies w3"
    "read_replies w4 = read_replies w3" "bcrypt_replies w4 = bcrypt_replies w3"
    using clock_now_frame [of w3] c1 by simp_all
  show ?thesis
    using c0 rd c1 f1 f3 f4
    by (cases r) (simp_all add: RandomGenerator_ctor_def open_devices_pseudo_random_only)
qed

lemma dtor_no_handles:
  "members g = (case plat of Posix \<Rightarrow> Posix_members (- 1) (- 1) | Windows \<Rightarrow> Windows_members
                  | Other_platform \<Rightarrow> No_members) \<Longrightarrow> RandomGenerator_dtor g w = w"
  by (simp add: RandomGenerator_dtor_def split: platform.splits)

subsection \<open>Single positions of the result\<close>

lemma GetRandomOctets_span_nth:
  assumes "SourceRandomOctets g octets w = (k, b, w')" and "i < length octets"
  shows "fst (GetRandomOctets_span L g octets w) ! i = b ! i XOR prng_octet L g i"
proof -
  from assms(2) have ne: "octets \<noteq> []" by auto
  from SourceRandomOctets_facts(1) [OF assms(1)] have len: "length b = length octets" .
  from ne assms(1) have "fst (GetRandomOctets_span L g octets w) =
      map (\<lambda>i. b ! i XOR prng_octet L g i) [0..<length octets]"
    by (simp add: GetRandomOctets_span_def xor_loop_range_eq len)
  with assms(2) show ?thesis by simp
qed

lemma GetRandomOctets_count_nth:
  assumes "vector_new L n = Inr (replicate n 0)"
    and "SourceRandomOctets g (replicate n 0) w = (k, b, w')" and "i < n"
  shows "\<exists>octets. fst (GetRandomOctets_count L g n w) = Inr octets \<and>
           octets ! i = b ! i XOR prng_octet L g i"
  using GetRandomOctets_count_built [OF assms(1,2)] assms(3) by simp

lemma xor_octet_right_cancel: "(a XOR p = b XOR p) = (a = b)" for a b p :: octet
  by (metis bit.xor_left_self xor.commute)

subsection \<open>The counter library and the examples, evaluated\<close>

lemma counter_draw:
  "GetPseudoRandomOctet counter_random g =
     (of_nat (fst (distribution g) + random_engine g mod (snd (distribution g) - fst (distribution g) + 1)),
      g\<lparr>random_engine := Suc (random_engine g)\<rparr>)"
  by (simp add: GetPseudoRandomOctet_def counter_random_def split_def)

lemma counter_advance: "advance counter_random g = g\<lparr>random_engine := Suc (random_engine g)\<rparr>"
  by (simp add: advance_def counter_draw)

lemma counter_advance_funpow:
  "(advance counter_random ^^ n) g = g\<lparr>random_engine := random_engine g + n\<rparr>"
  by (induction n) (simp_all add: counter_advance)

lemma counter_prng_octet:
  "prng_octet counter_random g i =
     of_nat (fst (distribution g) + (random_engine g + i) mod (snd (distribution g) - fst (distribution g) + 1))"
  by (simp add: prng_octet_def counter_advance_funpow counter_draw)

lemma example_vector_new:
  "n \<le> 65536 \<Longrightarrow> vector_new counter_random n = Inr (replicate n 0)"
  by (simp add: vector_new_def counter_random_def)

lemma example_source_count: "SourceRandomOctets example_generator [0, 0, 0] example_world =
    (1, [16, 0, 0], example_world\<lparr>read_replies := [], trace := [Sys_read 3 0 3, Sys_read 4 1 2]\<rparr>)"
  by (simp add: SourceRandomOctets_def example_generator_def example_world_def read_random_def
      read_pseudo_random_def sys_read_def store_def Let_def)

lemma example_source_span: "SourceRandomOctets example_generator [1, 2, 4] example_world =
    (1, [16, 2, 4], example_world\<lparr>read_replies := [], trace := [Sys_read 3 0 3, Sys_read 4 1 2]\<rparr>)"
  by (simp add: SourceRandomOctets_def example_generator_def example_world_def read_random_def
      read_pseudo_random_def sys_read_def store_def Let_def)

lemma example_ctor:
  "RandomGenerator_ctor counter_random Posix True example_boot_world =
     (\<lparr>pseudo_random_only = True, distribution = (0, 255), random_engine = 5,
       members = Posix_members (- 1) (- 1)\<rparr>,
      example_boot_world\<lparr>clock_ticks := [2000], random_device_replies := []\<rparr>)"
  by (simp add: RandomGenerator_ctor_def clock_now_def open_devices_def random_device_def
      example_boot_world_def counter_random_def)

lemma example_run:
  "run_calls counter_random example_calls
     (\<lparr>pseudo_random_only = True, distribution = (0, 255), random_engine = 5,
       members = Posix_members (- 1) (- 1)\<rparr>, w) =
     (\<lparr>pseudo_random_only = True, distribution = (0, 255), random_engine = 10,
       members = Posix_members (- 1) (- 1)\<rparr>, w)"
  by (simp add: example_calls_def GetRandomOctet_pseudo_random_only
      GetRandomOctets_count_pseudo_random_only GetRandomOctets_span_pseudo_random_only
      SourceRandomOctets_skip counter_advance counter_advance_funpow example_vector_new)

section \<open>The claims\<close>

text \<open>
  C1, as the source has it. The allocating overload builds its vector first, and that
  can throw: with a count above \<^verbatim>\<open>max_size()\<close> the call ends in \<^verbatim>\<open>std::length_error\<close>, having
  called neither the reader nor the PRNG (generator and world are as before), and it
  returns no octets. So the claim does not hold for every non-empty request.
\<close>

theorem GetRandomOctets_count_above_max_size_counterexample:
  "(0::nat) < 9223372036854775808 \<and>
   GetRandomOctets_count counter_random example_generator 9223372036854775808 example_world =
     (Inl Length_error, example_generator, example_world)"
  by (simp add: GetRandomOctets_count_def vector_new_def counter_random_def)

text \<open>
  C1, amended. For every non-empty request of \<open>n\<close> octets whose vector is built (\<open>n\<close> is
  at most \<^verbatim>\<open>max_size()\<close> and the allocator supplies the storage), the
  allocating overload of \<^verbatim>\<open>GetRandomOctets\<close>, and for every non-empty buffer the in-place
  overload, call \<^verbatim>\<open>SourceRandomOctets\<close> once, on the whole buffer (the world afterwards is
  the world after that one call), and then XOR into every position \<open>i\<close>, sourced or not,
  the octet of the \<open>i\<close>-th fresh call of \<^verbatim>\<open>GetPseudoRandomOctet\<close>; the generator has then
  advanced by exactly \<open>n\<close> such calls, and the allocating overload returns \<open>n\<close> octets.
  Advancing by \<open>n\<close> calls changes the engine state alone, by \<open>n\<close> draws of the library.
  When building the vector throws, the allocating overload ends with that exception and
  has changed neither the generator nor the world.
\<close>

theorem GetRandomOctets_sources_once_and_mixes_every_position:
  "(0 < n \<and> vector_new L n = Inr (replicate n 0) \<longrightarrow>
      (\<exists>k b w'. SourceRandomOctets g (replicate n 0) w = (k, b, w') \<and>
         GetRandomOctets_count L g n w =
           (Inr (map (\<lambda>i. b ! i XOR prng_octet L g i) [0..<n]), (advance L ^^ n) g, w') \<and>
         length (map (\<lambda>i. b ! i XOR prng_octet L g i) [0..<n]) = n)) \<and>
   (vector_new L n = Inl exception \<longrightarrow>
      GetRandomOctets_count L g n w = (Inl exception, g, w)) \<and>
   (octets \<noteq> [] \<longrightarrow>
      (\<exists>k b w'. SourceRandomOctets g octets w = (k, b, w') \<and>
         GetRandomOctets_span L g octets w =
           (map (\<lambda>i. b ! i XOR prng_octet L g i) [0..<length octets],
            (advance L ^^ length octets) g, w'))) \<and>
   (advance L ^^ n) g =
     g\<lparr>random_engine :=
         ((\<lambda>e. snd (dist_draw L (distribution g) e)) ^^ n) (random_engine g)\<rparr>"
proof (intro conjI impI)
  assume n: "0 < n \<and> vector_new L n = Inr (replicate n 0)"
  obtain k b w' where src: "SourceRandomOctets g (replicate n 0) w = (k, b, w')"
    using prod_cases3 by blast
  from n GetRandomOctets_count_built [OF _ src, of L]
  have "GetRandomOctets_count L g n w =
      (Inr (map (\<lambda>i. b ! i XOR prng_octet L g i) [0..<n]), (advance L ^^ n) g, w')"
    by simp
  with src show "\<exists>k b w'. SourceRandomOctets g (replicate n 0) w = (k, b, w') \<and>
         GetRandomOctets_count L g n w =
           (Inr (map (\<lambda>i. b ! i XOR prng_octet L g i) [0..<n]), (advance L ^^ n) g, w') \<and>
         length (map (\<lambda>i. b ! i XOR prng_octet L g i) [0..<n]) = n"
    by simp
next
  assume "vector_new L n = Inl exception"
  then show "GetRandomOctets_count L g n w = (Inl exception, g, w)"
    by (rule GetRandomOctets_count_throws)
next
  assume ne: "octets \<noteq> []"
  obtain k b w' where src: "SourceRandomOctets g octets w = (k, b, w')"
    using prod_cases3 by blast
  from SourceRandomOctets_facts(1) [OF src] have len: "length b = length octets" .
  from ne src have "GetRandomOctets_span L g octets w =
      (map (\<lambda>i. b ! i XOR prng_octet L g i) [0..<length octets],
            (advance L ^^ length octets) g, w')"
    by (simp add: GetRandomOctets_span_def xor_loop_range_eq len)
  with src show "\<exists>k b w'. SourceRandomOctets g octets w = (k, b, w') \<and>
         GetRandomOctets_span L g octets w =
           (map (\<lambda>i. b ! i XOR prng_octet L g i) [0..<length octets],
            (advance L ^^ length octets) g, w')"
    by simp
next
  show "(advance L ^^ n) g =
     g\<lparr>random_engine :=
         ((\<lambda>e. snd (dist_draw L (distribution g) e)) ^^ n) (random_engine g)\<rparr>"
    by (rule advance_funpow_engine)
qed

theorem GetRandomOctets_sources_once_and_mixes_every_position_witness:
  "GetRandomOctets_count counter_random example_generator 3 example_world =
     (Inr [23, 8, 9], example_generator\<lparr>random_engine := 10\<rparr>,
      example_world\<lparr>read_replies := [], trace := [Sys_read 3 0 3, Sys_read 4 1 2]\<rparr>) \<and>
   GetRandomOctets_count counter_random example_generator 65537 example_world =
     (Inl Bad_alloc, example_generator, example_world) \<and>
   GetRandomOctets_span counter_random example_generator [1, 2, 4] example_world =
     ([23, 10, 13], example_generator\<lparr>random_engine := 10\<rparr>,
      example_world\<lparr>read_replies := [], trace := [Sys_read 3 0 3, Sys_read 4 1 2]\<rparr>)"
proof -
  have upt3: "[0..<3] = [0, 1, 2]" by (simp add: upt_rec)
  have rep: "replicate 3 (0::octet) = [0, 0, 0]" by (simp add: numeral_3_eq_3)
  have p: "prng_octet counter_random example_generator 0 = 7"
    "prng_octet counter_random example_generator (Suc 0) = 8"
    "prng_octet counter_random example_generator 2 = 9"
    by (simp_all add: counter_prng_octet example_generator_def)
  have adv: "(advance counter_random ^^ 3) example_generator =
      example_generator\<lparr>random_engine := 10\<rparr>"
    by (simp add: counter_advance_funpow example_generator_def)
  have pre: "(0::nat) < 3 \<and> vector_new counter_random 3 = Inr (replicate 3 0)"
    "[1, 2, 4] \<noteq> ([] :: octet list)"
    by (simp_all add: example_vector_new)
  have bad: "vector_new counter_random 65537 = Inl Bad_alloc"
    by (simp add: vector_new_def counter_random_def)
  note inst = GetRandomOctets_sources_once_and_mixes_every_position
    [where n = 3 and L = counter_random and g = example_generator and w = example_world
      and octets = "[1, 2, 4]"]
  from inst pre obtain k b w' where
    "SourceRandomOctets example_generator (replicate 3 0) example_world = (k, b, w')" and
    "GetRandomOctets_count counter_random example_generator 3 example_world =
       (Inr (map (\<lambda>i. b ! i XOR prng_octet counter_random example_generator i) [0..<3]),
        (advance counter_random ^^ 3) example_generator, w')"
    by blast
  then have one: "GetRandomOctets_count counter_random example_generator 3 example_world =
     (Inr [23, 8, 9], example_generator\<lparr>random_engine := 10\<rparr>,
      example_world\<lparr>read_replies := [], trace := [Sys_read 3 0 3, Sys_read 4 1 2]\<rparr>)"
    by (auto simp: rep example_source_count upt3 p adv)
  from GetRandomOctets_sources_once_and_mixes_every_position
    [where n = 65537 and L = counter_random and g = example_generator and w = example_world
      and exception = Bad_alloc and octets = "[1, 2, 4]"] bad
  have thrown: "GetRandomOctets_count counter_random example_generator 65537 example_world =
     (Inl Bad_alloc, example_generator, example_world)"
    by blast
  from inst pre obtain k b w' where
    "SourceRandomOctets example_generator [1, 2, 4] example_world = (k, b, w')" and
    "GetRandomOctets_span counter_random example_generator [1, 2, 4] example_world =
       (map (\<lambda>i. b ! i XOR prng_octet counter_random example_generator i)
          [0..<length [1, 2, 4 :: octet]],
        (advance counter_random ^^ length [1, 2, 4 :: octet]) example_generator, w')"
    by blast
  then have two: "GetRandomOctets_span counter_random example_generator [1, 2, 4] example_world =
     ([23, 10, 13], example_generator\<lparr>random_engine := 10\<rparr>,
      example_world\<lparr>read_replies := [], trace := [Sys_read 3 0 3, Sys_read 4 1 2]\<rparr>)"
    using adv
    by (auto simp: example_source_span upt3 p numeral_3_eq_3 [symmetric] simp del: funpow.simps)
  from one thrown two show ?thesis by simp
qed

text \<open>
  C2. \<^verbatim>\<open>GetRandomOctet\<close> always returns: its result is the octet sourced from the
  operating system, taken as 0 when \<^verbatim>\<open>SourceRandomOctets\<close> sourced nothing, XOR the
  octet of exactly one call of \<^verbatim>\<open>GetPseudoRandomOctet\<close>. The reader is called once, on a
  buffer of one octet that holds 0, and sources at most one octet.
\<close>

theorem GetRandomOctet_mixes_one_sourced_octet:
  "\<exists>k b w'. SourceRandomOctets g [0] w = (k, b, w') \<and> length b = 1 \<and> k \<le> 1 \<and>
      GetRandomOctet L g w =
        ((if k = 0 then 0 else hd b) XOR fst (GetPseudoRandomOctet L g),
         snd (GetPseudoRandomOctet L g), w')"
proof -
  obtain k b w' where src: "SourceRandomOctets g [0] w = (k, b, w')"
    using prod_cases3 by blast
  from SourceRandomOctets_facts(1,2) [OF src] have len: "length b = 1" "k \<le> 1"
    by simp_all
  have hd: "(if k = 0 then 0 else hd b) = hd b"
  proof (cases "k = 0")
    case True
    with src SourceRandomOctets_none [of g "[0]" w b w'] show ?thesis by simp
  next
    case False
    then show ?thesis by simp
  qed
  have "GetRandomOctet L g w =
        (hd b XOR fst (GetPseudoRandomOctet L g), snd (GetPseudoRandomOctet L g), w')"
    using src by (simp add: GetRandomOctet_def split_def Let_def)
  with hd have "GetRandomOctet L g w =
        ((if k = 0 then 0 else hd b) XOR fst (GetPseudoRandomOctet L g),
         snd (GetPseudoRandomOctet L g), w')"
    by simp
  with src len show ?thesis by blast
qed

text \<open>
  C3. On the POSIX branch, for a non-empty buffer in mixed mode, \<^verbatim>\<open>SourceRandomOctets\<close>
  first makes one \<^verbatim>\<open>read\<close> from \<^verbatim>\<open>random_fd\<close> (when it is open) into the start of the buffer,
  for its whole length; only when that obtained fewer octets than the buffer holds does it
  make one \<^verbatim>\<open>read\<close> from \<^verbatim>\<open>pseudo_random_fd\<close> (when it is open), into the buffer from the
  position already filled, for the rest of the length. The count returned is the sum of
  what the two reads obtained, it is never more than the length of the buffer, and a
  shortfall is a smaller count, not an error. The log shows these reads and no other.
\<close>

theorem SourceRandomOctets_posix_primary_then_secondary:
  assumes "buffer \<noteq> []" and "\<not> pseudo_random_only g" and "members g = Posix_members rfd pfd"
  shows "\<exists>r1 b1 w1 r2 b2 w2.
           (r1, b1, w1) =
             (if 0 \<le> rfd then sys_read rfd buffer 0 (length buffer) w else (0, buffer, w)) \<and>
           (r2, b2, w2) =
             (if nat r1 < length buffer \<and> 0 \<le> pfd
              then sys_read pfd b1 (nat r1) (length buffer - nat r1) w1
              else (0, b1, w1)) \<and>
           SourceRandomOctets g buffer w = (nat r1 + nat r2, b2, w2) \<and>
           nat r1 + nat r2 \<le> length buffer \<and>
           trace w2 =
             trace w @ (if 0 \<le> rfd then [Sys_read rfd 0 (length buffer)] else []) @
               (if nat r1 < length buffer \<and> 0 \<le> pfd
                then [Sys_read pfd (nat r1) (length buffer - nat r1)] else [])"
proof -
  obtain r1 b1 w1 where first:
    "(r1, b1, w1) = (if 0 \<le> rfd then sys_read rfd buffer 0 (length buffer) w else (0, buffer, w))"
    by (metis prod_cases3)
  obtain r2 b2 w2 where second:
    "(r2, b2, w2) =
       (if nat r1 < length buffer \<and> 0 \<le> pfd
        then sys_read pfd b1 (nat r1) (length buffer - nat r1) w1
        else (0, b1, w1))"
    by (metis prod_cases3)
  have rr: "read_random rfd buffer w = (nat r1, b1, w1)"
    using first by (auto simp: read_random_def split: if_splits prod.splits)
  have len1: "length b1 = length buffer" and le1: "nat r1 \<le> length buffer"
    using read_random_facts [OF rr] by simp_all
  have rp: "read_pseudo_random pfd (nat r1) b1 w1 = (nat r1 + nat r2, b2, w2)"
    using second len1 by (auto simp: read_pseudo_random_def split: if_splits prod.splits)
  have src: "SourceRandomOctets g buffer w = (nat r1 + nat r2, b2, w2)"
    using assms rr rp by (simp add: SourceRandomOctets_def)
  have bound: "nat r1 + nat r2 \<le> length buffer"
    using SourceRandomOctets_facts(2) [OF src] .
  have t1: "trace w1 = trace w @ (if 0 \<le> rfd then [Sys_read rfd 0 (length buffer)] else [])"
    using first by (auto split: if_splits dest: sym [THEN sys_read_trace])
  have t2: "trace w2 = trace w1 @
      (if nat r1 < length buffer \<and> 0 \<le> pfd
       then [Sys_read pfd (nat r1) (length buffer - nat r1)] else [])"
    using second by (auto split: if_splits dest: sym [THEN sys_read_trace])
  from first second src bound t1 t2 show ?thesis
    by (intro exI [of _ r1] exI [of _ b1] exI [of _ w1] exI [of _ r2] exI [of _ b2] exI [of _ w2])
      simp
qed

theorem SourceRandomOctets_posix_primary_then_secondary_witness:
  "SourceRandomOctets example_generator [0, 0, 0] example_world =
     (1, [16, 0, 0], example_world\<lparr>read_replies := [], trace := [Sys_read 3 0 3, Sys_read 4 1 2]\<rparr>) \<and>
   SourceRandomOctets example_generator [0, 0, 0] example_boot_world =
     (3, [16, 32, 33],
      example_boot_world\<lparr>read_replies := [], trace := [Sys_read 3 0 3, Sys_read 4 1 2]\<rparr>)"
proof -
  have pre: "[0, 0, 0] \<noteq> ([] :: octet list)" "\<not> pseudo_random_only example_generator"
    "members example_generator = Posix_members 3 4"
    by (simp_all add: example_generator_def)
  have rd1: "sys_read 3 [0, 0, 0] 0 3 example_world =
      (1, [16, 0, 0], example_world\<lparr>read_replies := [None], trace := [Sys_read 3 0 3]\<rparr>)"
    by (simp add: sys_read_def example_world_def store_def)
  have rd2: "sys_read 4 [16, 0, 0] 1 2
        (example_world\<lparr>read_replies := [None], trace := [Sys_read 3 0 3]\<rparr>) =
      (- 1, [16, 0, 0],
       example_world\<lparr>read_replies := [], trace := [Sys_read 3 0 3, Sys_read 4 1 2]\<rparr>)"
    by (simp add: sys_read_def example_world_def)
  have rd3: "sys_read 3 [0, 0, 0] 0 3 example_boot_world =
      (1, [16, 0, 0],
       example_boot_world\<lparr>read_replies := [Some [32, 33, 34]], trace := [Sys_read 3 0 3]\<rparr>)"
    by (simp add: sys_read_def example_boot_world_def store_def)
  have rd4: "sys_read 4 [16, 0, 0] 1 2
        (example_boot_world\<lparr>read_replies := [Some [32, 33, 34]], trace := [Sys_read 3 0 3]\<rparr>) =
      (2, [16, 32, 33],
       example_boot_world\<lparr>read_replies := [], trace := [Sys_read 3 0 3, Sys_read 4 1 2]\<rparr>)"
    by (simp add: sys_read_def example_boot_world_def store_def)
  have len: "length [0, 0, 0 :: octet] = 3" by simp
  from SourceRandomOctets_posix_primary_then_secondary [OF pre, of example_world, unfolded len] obtain r1 b1 w1 r2 b2 w2 where
    first: "(r1, b1, w1) =
       (if (0::int) \<le> 3 then sys_read 3 [0, 0, 0] 0 3 example_world else (0, [0, 0, 0], example_world))"
    and second: "(r2, b2, w2) =
       (if nat r1 < 3 \<and> (0::int) \<le> 4 then sys_read 4 b1 (nat r1) (3 - nat r1) w1 else (0, b1, w1))"
    and src: "SourceRandomOctets example_generator [0, 0, 0] example_world = (nat r1 + nat r2, b2, w2)"
    by blast
  from first rd1 have "r1 = 1" "b1 = [16, 0, 0]"
    "w1 = example_world\<lparr>read_replies := [None], trace := [Sys_read 3 0 3]\<rparr>"
    by simp_all
  with second rd2 have "r2 = - 1" "b2 = [16, 0, 0]"
    "w2 = example_world\<lparr>read_replies := [], trace := [Sys_read 3 0 3, Sys_read 4 1 2]\<rparr>"
    by simp_all
  with src \<open>r1 = 1\<close>
  have one: "SourceRandomOctets example_generator [0, 0, 0] example_world =
     (1, [16, 0, 0], example_world\<lparr>read_replies := [], trace := [Sys_read 3 0 3, Sys_read 4 1 2]\<rparr>)"
    by simp
  from SourceRandomOctets_posix_primary_then_secondary [OF pre, of example_boot_world, unfolded len] obtain r1 b1 w1 r2 b2 w2 where
    first: "(r1, b1, w1) =
       (if (0::int) \<le> 3 then sys_read 3 [0, 0, 0] 0 3 example_boot_world
        else (0, [0, 0, 0], example_boot_world))"
    and second: "(r2, b2, w2) =
       (if nat r1 < 3 \<and> (0::int) \<le> 4 then sys_read 4 b1 (nat r1) (3 - nat r1) w1 else (0, b1, w1))"
    and src: "SourceRandomOctets example_generator [0, 0, 0] example_boot_world =
       (nat r1 + nat r2, b2, w2)"
    by blast
  from first rd3 have "r1 = 1" "b1 = [16, 0, 0]"
    "w1 = example_boot_world\<lparr>read_replies := [Some [32, 33, 34]], trace := [Sys_read 3 0 3]\<rparr>"
    by simp_all
  with second rd4 have "r2 = 2" "b2 = [16, 32, 33]"
    "w2 = example_boot_world\<lparr>read_replies := [], trace := [Sys_read 3 0 3, Sys_read 4 1 2]\<rparr>"
    by simp_all
  with src \<open>r1 = 1\<close>
  have two: "SourceRandomOctets example_generator [0, 0, 0] example_boot_world =
     (3, [16, 32, 33],
      example_boot_world\<lparr>read_replies := [], trace := [Sys_read 3 0 3, Sys_read 4 1 2]\<rparr>)"
    by simp
  from one two show ?thesis by simp
qed

text \<open>
  C4. A generator constructed with \<^verbatim>\<open>pseudo_random_only = true\<close> holds no device: on POSIX
  both descriptors are \<open>-1\<close> after construction, and construction opens nothing.
  \<^verbatim>\<open>SourceRandomOctets\<close> returns 0 at once, touching neither buffer nor world, whenever the
  buffer is empty or the generator is in that mode. And this lasts for the whole
  lifetime: whatever calls are made, the flag and the members stay as constructed, and
  the world after the last call, and after destruction, is the world as construction
  left it (nothing opened, read or closed).
\<close>

theorem pseudo_random_only_never_touches_the_os:
  "members (fst (RandomGenerator_ctor L Posix True w)) = Posix_members (- 1) (- 1) \<and>
   (buffer = [] \<or> pseudo_random_only g \<longrightarrow> SourceRandomOctets g buffer w = (0, buffer, w)) \<and>
   (\<exists>g0 w0 g1.
      RandomGenerator_ctor L plat True w = (g0, w0) \<and>
      trace w0 = trace w \<and> open_replies w0 = open_replies w \<and>
      read_replies w0 = read_replies w \<and> bcrypt_replies w0 = bcrypt_replies w \<and>
      run_calls L cs (g0, w0) = (g1, w0) \<and>
      pseudo_random_only g1 \<and> members g1 = members g0 \<and>
      lifetime L plat True cs w = (g1, w0))"
proof (intro conjI impI)
  from ctor_pseudo_random_only [of L Posix w]
  show "members (fst (RandomGenerator_ctor L Posix True w)) = Posix_members (- 1) (- 1)"
    by auto
next
  assume "buffer = [] \<or> pseudo_random_only g"
  then show "SourceRandomOctets g buffer w = (0, buffer, w)"
    by (rule SourceRandomOctets_skip)
next
  from ctor_pseudo_random_only [of L plat w]
  obtain g0 w0 where c: "RandomGenerator_ctor L plat True w = (g0, w0)" "pseudo_random_only g0"
    "members g0 = (case plat of Posix \<Rightarrow> Posix_members (- 1) (- 1) | Windows \<Rightarrow> Windows_members
                  | Other_platform \<Rightarrow> No_members)"
    "trace w0 = trace w" "open_replies w0 = open_replies w"
    "read_replies w0 = read_replies w" "bcrypt_replies w0 = bcrypt_replies w"
    by blast
  from run_calls_pseudo_random_only [OF c(2), of L cs w0]
  obtain g1 where r: "run_calls L cs (g0, w0) = (g1, w0)" "pseudo_random_only g1"
    "members g1 = members g0"
    by blast
  from r(3) c(3) have "RandomGenerator_dtor g1 w0 = w0"
    by (simp add: dtor_no_handles)
  with c r have "lifetime L plat True cs w = (g1, w0)"
    by (simp add: lifetime_def)
  with c r show "\<exists>g0 w0 g1.
      RandomGenerator_ctor L plat True w = (g0, w0) \<and>
      trace w0 = trace w \<and> open_replies w0 = open_replies w \<and>
      read_replies w0 = read_replies w \<and> bcrypt_replies w0 = bcrypt_replies w \<and>
      run_calls L cs (g0, w0) = (g1, w0) \<and>
      pseudo_random_only g1 \<and> members g1 = members g0 \<and>
      lifetime L plat True cs w = (g1, w0)"
    by blast
qed

theorem pseudo_random_only_never_touches_the_os_witness:
  "lifetime counter_random Posix True example_calls example_boot_world =
     (\<lparr>pseudo_random_only = True, distribution = (0, 255), random_engine = 10,
       members = Posix_members (- 1) (- 1)\<rparr>,
      example_boot_world\<lparr>clock_ticks := [2000], random_device_replies := []\<rparr>) \<and>
   SourceRandomOctets (example_generator\<lparr>pseudo_random_only := True\<rparr>) [0, 0]
       example_boot_world =
     (0, [0, 0], example_boot_world)"
proof -
  from pseudo_random_only_never_touches_the_os [where L = counter_random and w = example_boot_world and buffer = "[0, 0]"
      and g = "example_generator\<lparr>pseudo_random_only := True\<rparr>" and plat = Posix
      and cs = example_calls]
  obtain g0 w0 g1 where
    src: "SourceRandomOctets (example_generator\<lparr>pseudo_random_only := True\<rparr>) [0, 0]
       example_boot_world = (0, [0, 0], example_boot_world)"
    and ctor: "RandomGenerator_ctor counter_random Posix True example_boot_world = (g0, w0)"
    and run: "run_calls counter_random example_calls (g0, w0) = (g1, w0)"
    and life: "lifetime counter_random Posix True example_calls example_boot_world = (g1, w0)"
    by auto
  from ctor example_ctor have g0: "g0 = \<lparr>pseudo_random_only = True, distribution = (0, 255),
      random_engine = 5, members = Posix_members (- 1) (- 1)\<rparr>"
    and w0: "w0 = example_boot_world\<lparr>clock_ticks := [2000], random_device_replies := []\<rparr>"
    by simp_all
  from run g0 example_run [of w0] have "g1 = \<lparr>pseudo_random_only = True,
      distribution = (0, 255), random_engine = 10, members = Posix_members (- 1) (- 1)\<rparr>"
    by simp
  with life w0 src show ?thesis by simp
qed

text \<open>
  C5. Construction always yields a generator, on every platform and in both modes, with
  the flag as requested and the distribution on 0 to 255. Its engine is seeded from
  \<^verbatim>\<open>std::random_device\<close> when that delivers a value; when it throws (or is not there),
  the engine is seeded instead from the clock, read again at that moment. No failure of
  the seeding reaches the caller.
\<close>

theorem RandomGenerator_ctor_always_seeds:
  "\<exists>g w'. RandomGenerator_ctor L plat pro w = (g, w') \<and>
      pseudo_random_only g = pro \<and> distribution g = (0, 255) \<and>
      random_engine g =
        (let t0 = (if 0 < length (clock_ticks w) then clock_ticks w ! 0 else 0);
             t1 = (if 1 < length (clock_ticks w) then clock_ticks w ! 1 else 0);
             e0 = engine_init L (word_of_int t0)
         in case random_device_replies w of
              Some s # rs \<Rightarrow> engine_seed L s e0
            | None # rs \<Rightarrow> engine_seed L (word_of_int t1) e0
            | [] \<Rightarrow> engine_seed L (word_of_int t1) e0)"
proof -
  obtain t0 w1 where c0: "clock_now w = (t0, w1)" by (cases "clock_now w") auto
  obtain m w2 where od: "open_devices plat pro w1 = (m, w2)" by (cases "open_devices plat pro w1") auto
  obtain r w3 where rd: "random_device w2 = (r, w3)" by (cases "random_device w2") auto
  obtain t1 w4 where c1: "clock_now w3 = (t1, w4)" by (cases "clock_now w3") auto
  have t0: "t0 = (if 0 < length (clock_ticks w) then clock_ticks w ! 0 else 0)"
    using clock_now_fst(1) [of w] c0 by simp
  have ticks3: "clock_ticks w3 = tl (clock_ticks w)"
    using clock_now_fst(2) [of w] open_devices_frame(1) [of plat pro w1]
      random_device_frame(1) [of w2] c0 od rd by simp
  have t1: "t1 = (if 1 < length (clock_ticks w) then clock_ticks w ! 1 else 0)"
    using clock_now_fst(1) [of w3] c1 ticks3 by (cases "clock_ticks w") (auto simp: nth_tl)
  have replies2: "random_device_replies w2 = random_device_replies w"
    using clock_now_frame(1) [of w] open_devices_frame(2) [of plat pro w1] c0 od by simp
  have r: "r = (case random_device_replies w of [] \<Rightarrow> None | r # rs \<Rightarrow> r)"
    using random_device_fst [of w2] rd replies2 by simp
  show ?thesis
  proof (cases r)
    case None
    with c0 od rd c1 have "RandomGenerator_ctor L plat pro w =
        (\<lparr>pseudo_random_only = pro, distribution = (0, 255),
          random_engine = engine_seed L (word_of_int t1) (engine_init L (word_of_int t0)),
          members = m\<rparr>, w4)"
      by (simp add: RandomGenerator_ctor_def)
    with None r t0 t1 show ?thesis
      by (auto simp: Let_def split: list.splits option.splits)
  next
    case (Some s)
    with c0 od rd have "RandomGenerator_ctor L plat pro w =
        (\<lparr>pseudo_random_only = pro, distribution = (0, 255),
          random_engine = engine_seed L s (engine_init L (word_of_int t0)),
          members = m\<rparr>, w3)"
      by (simp add: RandomGenerator_ctor_def)
    with Some r t0 show ?thesis
      by (auto simp: Let_def split: list.splits option.splits)
  qed
qed

theorem RandomGenerator_ctor_always_seeds_witness:
  "RandomGenerator_ctor counter_random Posix False example_boot_world =
     (\<lparr>pseudo_random_only = False, distribution = (0, 255), random_engine = 5,
       members = Posix_members 3 4\<rparr>,
      example_boot_world\<lparr>clock_ticks := [2000], random_device_replies := [], open_replies := [],
        trace := [Sys_open ''/dev/random'', Sys_open ''/dev/urandom'']\<rparr>) \<and>
   RandomGenerator_ctor counter_random Windows True
       (example_boot_world\<lparr>random_device_replies := [None]\<rparr>) =
     (\<lparr>pseudo_random_only = True, distribution = (0, 255), random_engine = 2000,
       members = Windows_members\<rparr>,
      example_boot_world\<lparr>clock_ticks := [], random_device_replies := []\<rparr>)"
proof -
  have one: "RandomGenerator_ctor counter_random Posix False example_boot_world =
     (\<lparr>pseudo_random_only = False, distribution = (0, 255), random_engine = 5,
       members = Posix_members 3 4\<rparr>,
      example_boot_world\<lparr>clock_ticks := [2000], random_device_replies := [], open_replies := [],
        trace := [Sys_open ''/dev/random'', Sys_open ''/dev/urandom'']\<rparr>)"
    by (simp add: RandomGenerator_ctor_def clock_now_def open_devices_def random_device_def
        sys_open_def example_boot_world_def counter_random_def)
  from RandomGenerator_ctor_always_seeds [of counter_random Windows True "example_boot_world\<lparr>random_device_replies := [None]\<rparr>"]
  obtain g w' where ctor: "RandomGenerator_ctor counter_random Windows True
       (example_boot_world\<lparr>random_device_replies := [None]\<rparr>) = (g, w')"
    and pro: "pseudo_random_only g = True" and dist: "distribution g = (0, 255)"
    and eng: "random_engine g = 2000"
    by (auto simp: example_boot_world_def counter_random_def)
  have mem: "members g = Windows_members"
    and w': "w' = example_boot_world\<lparr>clock_ticks := [], random_device_replies := []\<rparr>"
    using ctor
    by (auto simp: RandomGenerator_ctor_def clock_now_def open_devices_def random_device_def
        example_boot_world_def)
  from pro dist eng mem have "g = \<lparr>pseudo_random_only = True, distribution = (0, 255),
      random_engine = 2000, members = Windows_members\<rparr>"
    by (cases g) simp
  with ctor w' one show ?thesis by simp
qed

text \<open>
  C6. A request of length zero has no effect: the allocating overload returns the empty
  sequence, the in-place overload returns at once, and the generator (its engine state
  included) and the world are unchanged, so nothing was read and nothing was drawn.
\<close>

theorem GetRandomOctets_zero_length_no_effect:
  "GetRandomOctets_count L g 0 w = (Inr [], g, w) \<and> GetRandomOctets_span L g [] w = ([], g, w)"
  by (simp add: GetRandomOctets_count_def vector_new_def GetRandomOctets_span_def)

text \<open>
  For a buffer of fewer than \<open>2 ^ 32\<close> octets the conversion to \<^verbatim>\<open>ULONG\<close> keeps the size,
  and sourcing on Windows is all or nothing: one call of \<^verbatim>\<open>BCryptGenRandom\<close> for the whole
  buffer, the full length returned when it succeeds, 0 when it fails.
\<close>

lemma SourceRandomOctets_windows_below_ULONG:
  assumes "buffer \<noteq> []" and "\<not> pseudo_random_only g" and "members g = Windows_members"
    and "length buffer < 2 ^ 32"
  shows "\<exists>success b w'. sys_BCryptGenRandom buffer (length buffer) w = (success, b, w') \<and>
           SourceRandomOctets g buffer w = (if success then length buffer else 0, b, w') \<and>
           (if success then length b = length buffer else b = buffer) \<and>
           trace w' = trace w @ [Sys_BCryptGenRandom (length buffer)]"
proof -
  obtain success b w' where
    bc: "sys_BCryptGenRandom buffer (length buffer) w = (success, b, w')"
    using prod_cases3 by blast
  from assms bc
  have "SourceRandomOctets g buffer w = (if success then length buffer else 0, b, w')"
    by (simp add: SourceRandomOctets_def ULONG_cast_small)
  moreover from sys_BCryptGenRandom_cases [OF bc]
  have "if success then length b = length buffer else b = buffer" by auto
  moreover note sys_BCryptGenRandom_trace [OF bc]
  ultimately show ?thesis using bc by blast
qed

text \<open>
  C7. On Windows sourcing is meant to be all or nothing: the full length when the one call
  succeeds, 0 when it fails, and no partial fill. The code breaks this for a buffer of
  \<open>2 ^ 32\<close> octets or more: the size is cut to \<^verbatim>\<open>ULONG\<close>, so for \<open>2 ^ 32 + 2\<close> octets
  \<^verbatim>\<open>BCryptGenRandom\<close> is asked for 2 octets and fills 2, while the count returned is
  \<open>2 ^ 32 + 2\<close>: all the octets from position 2 on are counted as sourced and hold what
  they held before (here 7).
\<close>

theorem SourceRandomOctets_windows_counts_octets_never_filled:
  "SourceRandomOctets example_windows_generator (replicate 4294967298 7) example_windows_world =
     (4294967298, 5 # 6 # replicate 4294967296 7,
      example_windows_world\<lparr>bcrypt_replies := [None], trace := [Sys_BCryptGenRandom 2]\<rparr>)"
proof -
  have cast: "ULONG_cast 4294967298 = 2"
    by (simp add: ULONG_cast_def)
  have call: "sys_BCryptGenRandom (replicate 4294967298 7) 2 example_windows_world =
      (True, 5 # 6 # replicate 4294967296 7,
       example_windows_world\<lparr>bcrypt_replies := [None], trace := [Sys_BCryptGenRandom 2]\<rparr>)"
    by (simp add: sys_BCryptGenRandom_def example_windows_world_def store_def)
  show ?thesis
    by (simp add: SourceRandomOctets_def example_windows_generator_def cast call)
qed

text \<open>
  C8. \<^verbatim>\<open>GetPseudoRandomOctet\<close> always returns; its octet is a function of the engine state
  and the bounds alone (generators that agree on both draw the same octet); it replaces
  the engine state by the state the library's draw leaves, and changes nothing else; with
  bounds 0 and 255 the octet is the very value the distribution drew, and lies in 0 to
  255. The bounds are 0 and 255 in every generator that was constructed, whatever calls
  were made on it since. Taken from the library: a draw from the bounds 0 and 255 is at
  most 255, and a draw changes the state of the engine.
\<close>

theorem GetPseudoRandomOctet_deterministic_draw:
  assumes bounds: "distribution g = (0, 255)"
    and range: "\<forall>e. fst (dist_draw L (0, 255) e) \<le> 255"
    and steps: "\<forall>e. snd (dist_draw L (0, 255) e) \<noteq> e"
  shows "(\<exists>p g'. GetPseudoRandomOctet L g = (p, g') \<and>
           unat p = fst (dist_draw L (0, 255) (random_engine g)) \<and>
           unat p \<le> 255 \<and>
           g' = g\<lparr>random_engine := snd (dist_draw L (0, 255) (random_engine g))\<rparr> \<and>
           random_engine g' \<noteq> random_engine g \<and>
           (\<forall>h. random_engine h = random_engine g \<and> distribution h = distribution g \<longrightarrow>
                fst (GetPseudoRandomOctet L h) = p)) \<and>
         distribution (fst (run_calls L cs (RandomGenerator_ctor L plat pro w))) = (0, 255)"
proof -
  let ?v = "fst (dist_draw L (0, 255) (random_engine g))"
  let ?e = "snd (dist_draw L (0, 255) (random_engine g))"
  have eq: "GetPseudoRandomOctet L g = (of_nat ?v, g\<lparr>random_engine := ?e\<rparr>)"
    using bounds by (simp add: GetPseudoRandomOctet_def split_def Let_def)
  from range have "?v \<le> 255" by blast
  then have v: "unat (of_nat ?v :: octet) = ?v"
    by (simp add: unat_of_nat)
  have det: "fst (GetPseudoRandomOctet L h) = of_nat ?v"
    if "random_engine h = random_engine g \<and> distribution h = distribution g" for h
    using that bounds by (simp add: GetPseudoRandomOctet_def split_def Let_def)
  from steps have "?e \<noteq> random_engine g" by blast
  with eq v \<open>?v \<le> 255\<close> det constructed_distribution [of L cs plat pro w] show ?thesis by simp
qed

theorem GetPseudoRandomOctet_deterministic_draw_witness:
  "GetPseudoRandomOctet counter_random example_generator =
     (7, example_generator\<lparr>random_engine := 8\<rparr>) \<and>
   unat (fst (GetPseudoRandomOctet counter_random example_generator)) = 7 \<and>
   distribution (fst (run_calls counter_random example_calls
      (RandomGenerator_ctor counter_random Posix False example_boot_world))) = (0, 255)"
proof -
  have bounds: "distribution example_generator = (0, 255)"
    by (simp add: example_generator_def)
  have range: "\<forall>e. fst (dist_draw counter_random (0, 255) e) \<le> 255"
  proof
    fix e :: nat
    have "e mod 256 < 256" by simp
    then have "e mod 256 \<le> 255" by linarith
    then show "fst (dist_draw counter_random (0, 255) e) \<le> 255"
      by (simp add: counter_random_def)
  qed
  have steps: "\<forall>e. snd (dist_draw counter_random (0, 255) e) \<noteq> e"
    by (simp add: counter_random_def)
  have draw: "dist_draw counter_random (0, 255) (random_engine example_generator) = (7, 8)"
    by (simp add: counter_random_def example_generator_def)
  from GetPseudoRandomOctet_deterministic_draw [OF bounds range steps, of example_calls Posix False example_boot_world] draw
  obtain p g' where "GetPseudoRandomOctet counter_random example_generator = (p, g')"
    and "unat p = 7" and "g' = example_generator\<lparr>random_engine := 8\<rparr>"
    and "distribution (fst (run_calls counter_random example_calls
      (RandomGenerator_ctor counter_random Posix False example_boot_world))) = (0, 255)"
    by auto
  moreover from \<open>unat p = 7\<close> have "of_nat (unat p) = (of_nat 7 :: octet)"
    by (simp only:)
  then have "p = 7" by simp
  ultimately show ?thesis by simp
qed

text \<open>
  C9, as the source has it. In pseudo-random-only mode too the allocating overload builds
  its vector first: with a count above \<^verbatim>\<open>max_size()\<close> it throws \<^verbatim>\<open>std::length_error\<close>, and
  with a count the allocator cannot supply \<^verbatim>\<open>std::bad_alloc\<close>; it returns no sequence,
  where successive calls of \<^verbatim>\<open>GetRandomOctet()\<close>, which is \<^verbatim>\<open>noexcept\<close>, return their octets.
  So the claim does not hold for every count.
\<close>

theorem GetRandomOctets_count_throws_where_single_calls_return_counterexample:
  "GetRandomOctets_count counter_random (example_generator\<lparr>pseudo_random_only := True\<rparr>)
       9223372036854775808 example_world =
     (Inl Length_error, example_generator\<lparr>pseudo_random_only := True\<rparr>, example_world) \<and>
   fst (GetRandomOctets_count counter_random (example_generator\<lparr>pseudo_random_only := True\<rparr>)
       9223372036854775808 example_world) \<noteq>
     Inr (fst (GetRandomOctet_times counter_random 9223372036854775808
       (example_generator\<lparr>pseudo_random_only := True\<rparr>) example_world))"
  by (simp add: GetRandomOctets_count_def vector_new_def counter_random_def)

text \<open>
  C9, amended. For every generator in pseudo-random-only mode and every count \<open>n\<close> whose
  vector is built, \<^verbatim>\<open>GetRandomOctets(n)\<close> started from a generator returns the same \<open>n\<close>
  octets as \<open>n\<close> successive calls of \<^verbatim>\<open>GetRandomOctet()\<close> started from the same generator,
  and leaves the same generator and the same world. When building the vector throws,
  it ends with that exception and returns no octets.
\<close>

theorem GetRandomOctets_refines_GetRandomOctet_times:
  assumes "pseudo_random_only g"
  shows "(vector_new L n = Inr (replicate n 0) \<longrightarrow>
            GetRandomOctets_count L g n w =
              (Inr (fst (GetRandomOctet_times L n g w)), snd (GetRandomOctet_times L n g w))) \<and>
         (vector_new L n = Inl exception \<longrightarrow>
            GetRandomOctets_count L g n w = (Inl exception, g, w))"
  using assms
  by (simp add: GetRandomOctets_count_pseudo_random_only GetRandomOctet_times_pseudo_random_only
      GetRandomOctets_count_throws)

theorem GetRandomOctets_refines_GetRandomOctet_times_witness:
  "GetRandomOctets_count counter_random (example_generator\<lparr>pseudo_random_only := True\<rparr>) 3
       example_world =
     (Inr [7, 8, 9], example_generator\<lparr>pseudo_random_only := True, random_engine := 10\<rparr>,
      example_world) \<and>
   GetRandomOctet_times counter_random 3 (example_generator\<lparr>pseudo_random_only := True\<rparr>)
       example_world =
     ([7, 8, 9], example_generator\<lparr>pseudo_random_only := True, random_engine := 10\<rparr>,
      example_world) \<and>
   GetRandomOctets_count counter_random (example_generator\<lparr>pseudo_random_only := True\<rparr>) 65537
       example_world =
     (Inl Bad_alloc, example_generator\<lparr>pseudo_random_only := True\<rparr>, example_world)"
proof -
  let ?g = "example_generator\<lparr>pseudo_random_only := True\<rparr>"
  have pre: "pseudo_random_only ?g" by simp
  have built: "vector_new counter_random 3 = Inr (replicate 3 0)"
    by (simp add: example_vector_new)
  have bad: "vector_new counter_random 65537 = Inl Bad_alloc"
    by (simp add: vector_new_def counter_random_def)
  have draw: "GetPseudoRandomOctet counter_random (?g\<lparr>random_engine := e\<rparr>) =
      (of_nat (e mod 256), ?g\<lparr>random_engine := Suc e\<rparr>)" for e
    by (simp add: counter_draw example_generator_def)
  have one: "GetRandomOctet counter_random (?g\<lparr>random_engine := e\<rparr>) w =
      (of_nat (e mod 256), ?g\<lparr>random_engine := Suc e\<rparr>, w)" for e w
    by (simp add: GetRandomOctet_def SourceRandomOctets_def draw)
  have g7: "?g = ?g\<lparr>random_engine := 7\<rparr>"
    by (simp add: example_generator_def)
  have "GetRandomOctet_times counter_random (Suc (Suc (Suc 0))) (?g\<lparr>random_engine := 7\<rparr>)
       example_world =
     ([7, 8, 9], ?g\<lparr>random_engine := 10\<rparr>, example_world)"
    by (simp add: one)
  with g7 have times: "GetRandomOctet_times counter_random 3 ?g example_world =
     ([7, 8, 9], ?g\<lparr>random_engine := 10\<rparr>, example_world)"
    by (simp add: numeral_3_eq_3)
  from GetRandomOctets_refines_GetRandomOctet_times
    [OF pre, where L = counter_random and n = 3 and w = example_world] built times
  have bulk: "GetRandomOctets_count counter_random ?g 3 example_world =
     (Inr [7, 8, 9], ?g\<lparr>random_engine := 10\<rparr>, example_world)"
    by simp
  from GetRandomOctets_refines_GetRandomOctet_times
    [OF pre, where L = counter_random and n = 65537 and w = example_world
      and exception = Bad_alloc] bad
  have thrown: "GetRandomOctets_count counter_random ?g 65537 example_world =
     (Inl Bad_alloc, ?g, example_world)"
    by simp
  from bulk times thrown show ?thesis by simp
qed

text \<open>
  C10. The in-place overload mixes onto what the buffer held: at every position that
  \<^verbatim>\<open>SourceRandomOctets\<close> did not fill, the result is the caller's prior octet XOR the PRNG
  octet of that position; in pseudo-random-only mode this holds at every position, so two
  buffers that differ at a position give results that differ there. The allocating
  overload, when its vector is built, and \<^verbatim>\<open>GetRandomOctet\<close> start from zero: at a position
  that was not filled their result is the PRNG octet alone.
\<close>

theorem GetRandomOctets_span_mixes_onto_prior_contents:
  "(SourceRandomOctets g octets w = (k, b, w') \<and> k \<le> i \<and> i < length octets \<longrightarrow>
      fst (GetRandomOctets_span L g octets w) ! i = octets ! i XOR prng_octet L g i) \<and>
   (pseudo_random_only g \<and> i < length octets \<longrightarrow>
      fst (GetRandomOctets_span L g octets w) ! i = octets ! i XOR prng_octet L g i) \<and>
   (pseudo_random_only g \<and> i < length octets \<and> length other = length octets \<and>
      other ! i \<noteq> octets ! i \<longrightarrow>
      fst (GetRandomOctets_span L g other w) ! i \<noteq> fst (GetRandomOctets_span L g octets w) ! i) \<and>
   (vector_new L n = Inr (replicate n 0) \<and>
      SourceRandomOctets g (replicate n 0) w = (kc, bc, wc) \<and> kc \<le> i \<and> i < n \<longrightarrow>
      (\<exists>returned. fst (GetRandomOctets_count L g n w) = Inr returned \<and>
         returned ! i = prng_octet L g i)) \<and>
   (fst (SourceRandomOctets g [0] w) = 0 \<longrightarrow>
      fst (GetRandomOctet L g w) = prng_octet L g 0)"
proof (intro conjI impI)
  assume a: "SourceRandomOctets g octets w = (k, b, w') \<and> k \<le> i \<and> i < length octets"
  then have "b ! i = octets ! i"
    using SourceRandomOctets_facts(3) [of g octets w k b w' i] by simp
  with a show "fst (GetRandomOctets_span L g octets w) ! i = octets ! i XOR prng_octet L g i"
    using GetRandomOctets_span_nth [of g octets w k b w' i L] by simp
next
  assume "pseudo_random_only g \<and> i < length octets"
  then show "fst (GetRandomOctets_span L g octets w) ! i = octets ! i XOR prng_octet L g i"
    by (simp add: GetRandomOctets_span_pseudo_random_only)
next
  assume "pseudo_random_only g \<and> i < length octets \<and> length other = length octets \<and>
      other ! i \<noteq> octets ! i"
  then show "fst (GetRandomOctets_span L g other w) ! i \<noteq>
      fst (GetRandomOctets_span L g octets w) ! i"
    by (simp add: GetRandomOctets_span_pseudo_random_only xor_octet_right_cancel)
next
  assume a: "vector_new L n = Inr (replicate n 0) \<and>
      SourceRandomOctets g (replicate n 0) w = (kc, bc, wc) \<and> kc \<le> i \<and> i < n"
  then have "bc ! i = 0"
    using SourceRandomOctets_facts(3) [of g "replicate n 0" w kc bc wc i] by simp
  with a show "\<exists>returned. fst (GetRandomOctets_count L g n w) = Inr returned \<and>
         returned ! i = prng_octet L g i"
    using GetRandomOctets_count_nth [of L n g w kc bc wc i] by simp
next
  assume a: "fst (SourceRandomOctets g [0] w) = 0"
  obtain k b w' where src: "SourceRandomOctets g [0] w = (k, b, w')"
    using prod_cases3 by blast
  with a have "b = [0]"
    using SourceRandomOctets_none [of g "[0]" w b w'] by simp
  with src show "fst (GetRandomOctet L g w) = prng_octet L g 0"
    by (simp add: GetRandomOctet_def GetPseudoRandomOctet_eq)
qed

theorem GetRandomOctets_span_mixes_onto_prior_contents_witness:
  "fst (GetRandomOctets_span counter_random example_generator [1, 2, 4] example_world) ! 2 = 13 \<and>
   fst (GetRandomOctets_span counter_random (example_generator\<lparr>pseudo_random_only := True\<rparr>)
          [1, 2, 4] example_world) ! 0 = 6 \<and>
   fst (GetRandomOctets_span counter_random (example_generator\<lparr>pseudo_random_only := True\<rparr>)
          [0, 2, 4] example_world) ! 0 \<noteq> 6 \<and>
   (\<exists>returned.
      fst (GetRandomOctets_count counter_random example_generator 3 example_world) =
        Inr returned \<and> returned ! 2 = 9) \<and>
   fst (GetRandomOctet counter_random (example_generator\<lparr>pseudo_random_only := True\<rparr>)
          example_world) = 7"
proof -
  let ?g = "example_generator\<lparr>pseudo_random_only := True\<rparr>"
  have p: "prng_octet counter_random example_generator 2 = 9"
    "prng_octet counter_random ?g 0 = 7"
    by (simp_all add: counter_prng_octet example_generator_def)
  have rep: "replicate 3 (0::octet) = [0, 0, 0]" by (simp add: numeral_3_eq_3)
  have skip: "SourceRandomOctets ?g buffer example_world = (0, buffer, example_world)" for buffer
    by (simp add: SourceRandomOctets_def)
  have a: "fst (GetRandomOctets_span counter_random example_generator [1, 2, 4] example_world) ! 2
      = 13"
    using GetRandomOctets_span_mixes_onto_prior_contents [where g = example_generator and octets = "[1, 2, 4]" and w = example_world
        and k = 1 and b = "[16, 2, 4]" and i = 2 and L = counter_random
        and w' = "example_world\<lparr>read_replies := [], trace := [Sys_read 3 0 3, Sys_read 4 1 2]\<rparr>"]
      example_source_span p
    by simp
  have built: "vector_new counter_random 3 = Inr (replicate 3 0)"
    by (simp add: example_vector_new)
  have d: "\<exists>returned.
      fst (GetRandomOctets_count counter_random example_generator 3 example_world) =
        Inr returned \<and> returned ! 2 = 9"
    using GetRandomOctets_span_mixes_onto_prior_contents
        [where g = example_generator and n = 3 and w = example_world
        and kc = 1 and bc = "[16, 0, 0]" and i = 2 and L = counter_random
        and wc = "example_world\<lparr>read_replies := [], trace := [Sys_read 3 0 3, Sys_read 4 1 2]\<rparr>"]
      example_source_count p built
    by (simp add: rep)
  note pro = GetRandomOctets_span_mixes_onto_prior_contents [where g = ?g and octets = "[1, 2, 4]" and other = "[0, 2, 4]"
        and w = example_world and i = 0 and L = counter_random and k = 0 and b = "[1, 2, 4]"
        and w' = example_world and n = 1 and kc = 0 and bc = "[0]" and wc = example_world]
  have b: "fst (GetRandomOctets_span counter_random ?g [1, 2, 4] example_world) ! 0 = 6"
    using pro p by simp
  have c: "fst (GetRandomOctets_span counter_random ?g [0, 2, 4] example_world) ! 0 \<noteq>
      fst (GetRandomOctets_span counter_random ?g [1, 2, 4] example_world) ! 0"
  proof -
    have "pseudo_random_only ?g \<and> 0 < length [1, 2, 4 :: octet] \<and>
        length [0, 2, 4 :: octet] = length [1, 2, 4 :: octet] \<and>
        [0, 2, 4 :: octet] ! 0 \<noteq> [1, 2, 4] ! 0"
      by simp
    with pro show ?thesis by blast
  qed
  have e: "fst (GetRandomOctet counter_random ?g example_world) = 7"
    using pro skip [of "[0]"] p by simp
  from a b c d e show ?thesis by simp
qed

end
